theory Spec2Isabelle
  imports Complex_Main "HOL-Library.Word"
begin

unbundle bit_operations_syntax

chapter \<open>Minikin: locale tags, break candidates and the optimal line breaker\<close>

text \<open>
  A shallow embedding of \<^verbatim>\<open>libs/minikin/FontLanguage.cpp\<close> and
  \<^verbatim>\<open>libs/minikin/OptimalLineBreaker.cpp\<close>.

  Conventions of the embedding.
  \<^item> \<^verbatim>\<open>uint16_t\<close>, \<^verbatim>\<open>uint32_t\<close> and \<^verbatim>\<open>uint8_t\<close> values that are
    packed, shifted or subtracted are words of that width; text offsets and candidate
    indices, which only count upwards through a paragraph, are natural numbers.
  \<^item> \<^verbatim>\<open>float\<close> and \<^verbatim>\<open>ParaWidth\<close> (\<^verbatim>\<open>double\<close>) are the real numbers: sums,
    differences and products are exact, rounding is not modelled.
  \<^item> Services that the two files call but do not define (the word breaker, the
    hyphenator, the measurement of a hyphenated piece, the classification of spaces) are
    parameters of the embedding.
  \<^item> A failed assertion is the \<open>Inl\<close> branch of a sum.
\<close>

section \<open>FontLanguage\<close>

subsection \<open>Data\<close>

datatype EmojiStyle = EMSTYLE_EMPTY | EMSTYLE_DEFAULT | EMSTYLE_EMOJI | EMSTYLE_TEXT

datatype Variant = NO_VARIANT | GERMAN_1901_ORTHOGRAPHY | GERMAN_1996_ORTHOGRAPHY

record FontLanguage =
  mScript :: "32 word"
  mLanguage :: "16 word"
  mRegion :: "16 word"
  mSubScriptBits :: "8 word"
  mEmojiStyle :: EmojiStyle
  mVariant :: Variant

text \<open>
  Modelled from the spec: the values that stand for an absent language, script and region.
  \<^verbatim>\<open>FontLanguage.h\<close>, which declares \<^verbatim>\<open>NO_LANGUAGE\<close>, \<^verbatim>\<open>NO_SCRIPT\<close> and
  \<^verbatim>\<open>NO_REGION\<close>, is not among the sources; the spec only says that each field may
  be absent. The all-ones value of the packed width (15 and 20 bits) is used. No packed
  code takes it, since every five-bit letter field of a packed code is at most 25.
\<close>

definition NO_LANGUAGE :: "16 word" where
  "NO_LANGUAGE = 0x7fff"

definition NO_SCRIPT :: "32 word" where
  "NO_SCRIPT = 0xfffff"

definition NO_REGION :: "16 word" where
  "NO_REGION = 0x7fff"

text \<open>The default constructor: nothing is known.\<close>

definition defaultFontLanguage :: FontLanguage where
  "defaultFontLanguage =
     \<lparr> mScript = NO_SCRIPT, mLanguage = NO_LANGUAGE, mRegion = NO_REGION,
       mSubScriptBits = 0, mEmojiStyle = EMSTYLE_EMPTY, mVariant = NO_VARIANT \<rparr>"

definition FIVE_BITS :: "'a::len word" where
  "FIVE_BITS = 0x1f"

subsection \<open>Packing of language, region and script codes\<close>

text \<open>A \<^verbatim>\<open>char\<close> read as a number, and back.\<close>

definition ord16 :: "char \<Rightarrow> 16 word" where
  "ord16 c = word_of_nat (of_char c)"

definition ord32 :: "char \<Rightarrow> 32 word" where
  "ord32 c = word_of_nat (of_char c)"

definition chr8 :: "8 word \<Rightarrow> char" where
  "chr8 w = char_of (unat w)"

definition packLanguageOrRegion :: "string \<Rightarrow> char \<Rightarrow> char \<Rightarrow> 16 word" where
  "packLanguageOrRegion in' twoLetterBase threeLetterBase =
     (if length in' = 2 then
        0x7c00 OR push_bit 5 (ord16 (in' ! 0) - ord16 twoLetterBase)
               OR (ord16 (in' ! 1) - ord16 twoLetterBase)
      else
        push_bit 10 (ord16 (in' ! 0) - ord16 threeLetterBase)
          OR push_bit 5 (ord16 (in' ! 1) - ord16 threeLetterBase)
          OR (ord16 (in' ! 2) - ord16 threeLetterBase))"

definition unpackLanguageOrRegion :: "16 word \<Rightarrow> char \<Rightarrow> char \<Rightarrow> string" where
  "unpackLanguageOrRegion in' twoLetterBase threeLetterBase =
     (let first = (ucast (drop_bit 10 in' AND FIVE_BITS) :: 8 word);
          second = (ucast (drop_bit 5 in' AND FIVE_BITS) :: 8 word);
          third = (ucast (in' AND FIVE_BITS) :: 8 word)
      in if first = 0x1f then
           [chr8 (second + word_of_nat (of_char twoLetterBase)),
            chr8 (third + word_of_nat (of_char twoLetterBase))]
         else
           [chr8 (first + word_of_nat (of_char threeLetterBase)),
            chr8 (second + word_of_nat (of_char threeLetterBase)),
            chr8 (third + word_of_nat (of_char threeLetterBase))])"

definition packLanguage :: "string \<Rightarrow> 16 word" where
  "packLanguage in' = packLanguageOrRegion in' CHR ''a'' CHR ''a''"

definition unpackLanguage :: "16 word \<Rightarrow> string" where
  "unpackLanguage in' = unpackLanguageOrRegion in' CHR ''a'' CHR ''a''"

definition packScript :: "char \<Rightarrow> char \<Rightarrow> char \<Rightarrow> char \<Rightarrow> 32 word" where
  "packScript c1 c2 c3 c4 =
     push_bit 15 (ord32 c1 - ord32 CHR ''A'') OR push_bit 10 (ord32 c2 - ord32 CHR ''a'')
       OR push_bit 5 (ord32 c3 - ord32 CHR ''a'') OR (ord32 c4 - ord32 CHR ''a'')"

definition unpackScript :: "32 word \<Rightarrow> 32 word" where
  "unpackScript packedScript =
     (let first = drop_bit 15 packedScript + ord32 CHR ''A'';
          second = (drop_bit 10 packedScript AND FIVE_BITS) + ord32 CHR ''a'';
          third = (drop_bit 5 packedScript AND FIVE_BITS) + ord32 CHR ''a'';
          fourth = (packedScript AND FIVE_BITS) + ord32 CHR ''a''
      in push_bit 24 first OR push_bit 16 second OR push_bit 8 third OR fourth)"

definition packRegion :: "string \<Rightarrow> 16 word" where
  "packRegion in' = packLanguageOrRegion in' CHR ''A'' CHR ''0''"

definition unpackRegion :: "16 word \<Rightarrow> string" where
  "unpackRegion in' = unpackLanguageOrRegion in' CHR ''A'' CHR ''0''"

subsection \<open>Validation of subtags\<close>

definition isLowercase :: "char \<Rightarrow> bool" where
  "isLowercase c = ((of_char CHR ''a'' :: nat) \<le> of_char c \<and> (of_char c :: nat) \<le> of_char CHR ''z'')"

definition isUppercase :: "char \<Rightarrow> bool" where
  "isUppercase c = ((of_char CHR ''A'' :: nat) \<le> of_char c \<and> (of_char c :: nat) \<le> of_char CHR ''Z'')"

definition isDigit :: "char \<Rightarrow> bool" where
  "isDigit c = ((of_char CHR ''0'' :: nat) \<le> of_char c \<and> (of_char c :: nat) \<le> of_char CHR ''9'')"

definition isValidLanguageCode :: "string \<Rightarrow> bool" where
  "isValidLanguageCode buffer =
     (if length buffer \<noteq> 2 \<and> length buffer \<noteq> 3 then False
      else if \<not> isLowercase (buffer ! 0) then False
      else if \<not> isLowercase (buffer ! 1) then False
      else if length buffer = 3 \<and> \<not> isLowercase (buffer ! 2) then False
      else True)"

definition isValidScriptCode :: "string \<Rightarrow> bool" where
  "isValidScriptCode buffer =
     (length buffer = 4 \<and> isUppercase (buffer ! 0) \<and> isLowercase (buffer ! 1) \<and>
      isLowercase (buffer ! 2) \<and> isLowercase (buffer ! 3))"

definition isValidRegionCode :: "string \<Rightarrow> bool" where
  "isValidRegionCode buffer =
     ((length buffer = 2 \<and> isUppercase (buffer ! 0) \<and> isUppercase (buffer ! 1)) \<or>
      (length buffer = 3 \<and> isDigit (buffer ! 0) \<and> isDigit (buffer ! 1) \<and> isDigit (buffer ! 2)))"

subsection \<open>Script tables\<close>

definition kBopomofoFlag :: "8 word" where "kBopomofoFlag = 1"
definition kHanFlag :: "8 word" where "kHanFlag = push_bit 1 1"
definition kHangulFlag :: "8 word" where "kHangulFlag = push_bit 2 1"
definition kHiraganaFlag :: "8 word" where "kHiraganaFlag = push_bit 3 1"
definition kKatakanaFlag :: "8 word" where "kKatakanaFlag = push_bit 4 1"
definition kSimplifiedChineseFlag :: "8 word" where "kSimplifiedChineseFlag = push_bit 5 1"
definition kTraditionalChineseFlag :: "8 word" where "kTraditionalChineseFlag = push_bit 6 1"

definition scriptToEmojiStyle :: "32 word \<Rightarrow> EmojiStyle" where
  "scriptToEmojiStyle script =
     (if script = packScript CHR ''Z'' CHR ''s'' CHR ''y'' CHR ''e'' then EMSTYLE_EMOJI
      else if script = packScript CHR ''Z'' CHR ''s'' CHR ''y'' CHR ''m'' then EMSTYLE_TEXT
      else EMSTYLE_EMPTY)"

definition scriptToSubScriptBits :: "32 word \<Rightarrow> 8 word" where
  "scriptToSubScriptBits script =
     (if script = packScript CHR ''B'' CHR ''o'' CHR ''p'' CHR ''o'' then kBopomofoFlag
      else if script = packScript CHR ''H'' CHR ''a'' CHR ''n'' CHR ''g'' then kHangulFlag
      else if script = packScript CHR ''H'' CHR ''a'' CHR ''n'' CHR ''b'' then kHanFlag OR kBopomofoFlag
      else if script = packScript CHR ''H'' CHR ''a'' CHR ''n'' CHR ''i'' then kHanFlag
      else if script = packScript CHR ''H'' CHR ''a'' CHR ''n'' CHR ''s'' then kHanFlag OR kSimplifiedChineseFlag
      else if script = packScript CHR ''H'' CHR ''a'' CHR ''n'' CHR ''t'' then kHanFlag OR kTraditionalChineseFlag
      else if script = packScript CHR ''H'' CHR ''i'' CHR ''r'' CHR ''a'' then kHiraganaFlag
      else if script = packScript CHR ''H'' CHR ''r'' CHR ''k'' CHR ''t'' then kKatakanaFlag OR kHiraganaFlag
      else if script = packScript CHR ''J'' CHR ''p'' CHR ''a'' CHR ''n'' then kHanFlag OR kKatakanaFlag OR kHiraganaFlag
      else if script = packScript CHR ''K'' CHR ''a'' CHR ''n'' CHR ''a'' then kKatakanaFlag
      else if script = packScript CHR ''K'' CHR ''o'' CHR ''r'' CHR ''e'' then kHanFlag OR kHangulFlag
      else 0)"

subsection \<open>Matching against a list of supported languages\<close>

record FontLanguages =
  mLanguages :: "FontLanguage list"
  mUnionOfSubScriptBits :: "8 word"
  mIsAllTheSameLanguage :: bool

text \<open>
  The constructor from a vector of languages. For the empty vector it returns before
  touching the two summary fields; they are given the values \<open>0\<close> and \<open>False\<close> here.
\<close>

definition mkFontLanguages :: "FontLanguage list \<Rightarrow> FontLanguages" where
  "mkFontLanguages languages =
     (case languages of
        [] \<Rightarrow> \<lparr> mLanguages = [], mUnionOfSubScriptBits = 0, mIsAllTheSameLanguage = False \<rparr>
      | lang # rest \<Rightarrow>
          \<lparr> mLanguages = languages,
            mUnionOfSubScriptBits = foldl (\<lambda>u language. u OR mSubScriptBits language) (mSubScriptBits lang) rest,
            mIsAllTheSameLanguage =
              foldl (\<lambda>same language. if same \<and> mLanguage lang \<noteq> mLanguage language then False else same)
                True rest \<rparr>)"

definition isEqualScript :: "FontLanguage \<Rightarrow> FontLanguage \<Rightarrow> bool" where
  "isEqualScript this other = (mScript other = mScript this)"

definition supportsScript :: "8 word \<Rightarrow> 8 word \<Rightarrow> bool" where
  "supportsScript providedBits requestedBits =
     (requestedBits \<noteq> 0 \<and> (providedBits AND requestedBits) = requestedBits)"

text \<open>
  The three flags that the loop of \<^verbatim>\<open>calcScoreFor\<close> accumulates. The loop either
  returns 4 from inside (\<open>Inl\<close>) or ends with the flags (\<open>Inr\<close>).
\<close>

record ScoreFlags =
  languageScriptMatch :: bool
  subtagMatch :: bool
  scriptMatch :: bool

fun calcScoreLoop :: "FontLanguage \<Rightarrow> FontLanguage list \<Rightarrow> ScoreFlags \<Rightarrow> int + ScoreFlags" where
  "calcScoreLoop this [] fl = Inr fl"
| "calcScoreLoop this (s # rest) fl =
     (let emojiHit = (mEmojiStyle this \<noteq> EMSTYLE_EMPTY \<and> mEmojiStyle this = mEmojiStyle s) in
      if emojiHit \<and> mLanguage this = mLanguage s then Inl 4
      else
        let fl1 = (if emojiHit then fl\<lparr>subtagMatch := True\<rparr> else fl);
            fl2 = (if isEqualScript this s \<or> supportsScript (mSubScriptBits s) (mSubScriptBits this)
                   then (if mLanguage this = mLanguage s
                         then fl1\<lparr>scriptMatch := True, languageScriptMatch := True\<rparr>
                         else fl1\<lparr>scriptMatch := True\<rparr>)
                   else fl1)
        in calcScoreLoop this rest fl2)"

definition calcScoreFor :: "FontLanguage \<Rightarrow> FontLanguages \<Rightarrow> int" where
  "calcScoreFor this supported =
     (case calcScoreLoop this (mLanguages supported)
             \<lparr> languageScriptMatch = False, subtagMatch = False, scriptMatch = False \<rparr> of
        Inl r \<Rightarrow> r
      | Inr fl \<Rightarrow>
          let unionHit = supportsScript (mUnionOfSubScriptBits supported) (mSubScriptBits this) in
          if unionHit \<and> mLanguage this = mLanguage (mLanguages supported ! 0)
               \<and> mIsAllTheSameLanguage supported then 3
          else if languageScriptMatch fl then 3
          else if subtagMatch fl then 2
          else if scriptMatch fl \<or> unionHit then 1
          else 0)"

subsection \<open>Parsing a BCP 47 identifier\<close>

text \<open>
  Modelled from the spec: \<^verbatim>\<open>SplitIterator\<close> of \<^verbatim>\<open>StringPiece.h\<close>, which is not
  among the sources. The spec says that tokens are delimited; the constructor passes the
  delimiter \<^verbatim>\<open>'-'\<close>. The iterator is the list of tokens still to be read:
  \<^verbatim>\<open>next()\<close> takes the head, \<^verbatim>\<open>hasNext()\<close> asks whether a token is left.
\<close>

fun splitOn :: "char \<Rightarrow> string \<Rightarrow> string list" where
  "splitOn d [] = [[]]"
| "splitOn d (c # cs) =
     (if c = d then [] # splitOn d cs
      else (c # hd (splitOn d cs)) # tl (splitOn d cs))"

text \<open>\<^verbatim>\<open>std::search\<close>: the text after the first occurrence of the pattern.\<close>

fun searchAfter :: "string \<Rightarrow> string \<Rightarrow> string option" where
  "searchAfter pat [] = (if pat = [] then Some [] else None)"
| "searchAfter pat (c # cs) =
     (if take (length pat) (c # cs) = pat then Some (drop (length pat) (c # cs))
      else searchAfter pat cs)"

definition isEmojiSubtag :: "string \<Rightarrow> string \<Rightarrow> bool" where
  "isEmojiSubtag buf subtag =
     (if length buf < length subtag then False
      else if take (length subtag) buf \<noteq> subtag then False
      else (length buf = length subtag \<or> buf ! length subtag = CHR 0x00 \<or>
            buf ! length subtag = CHR ''-'' \<or> buf ! length subtag = CHR ''_''))"

definition resolveEmojiStyle :: "string \<Rightarrow> EmojiStyle" where
  "resolveEmojiStyle buf =
     (if length buf \<ge> 10 then
        (case searchAfter ''-u-em-'' buf of
           Some pos \<Rightarrow>
             if isEmojiSubtag pos ''emoji'' then EMSTYLE_EMOJI
             else if isEmojiSubtag pos ''text'' then EMSTYLE_TEXT
             else if isEmojiSubtag pos ''default'' then EMSTYLE_DEFAULT
             else EMSTYLE_EMPTY
         | None \<Rightarrow> EMSTYLE_EMPTY)
      else EMSTYLE_EMPTY)"

text \<open>
  The constructor is one function with three jumps to the label \<^verbatim>\<open>finalize\<close>. It is
  split here at the points where a new token is examined; each part receives the token
  under examination and the tokens that follow it.
\<close>

definition finalize :: "FontLanguage \<Rightarrow> FontLanguage" where
  "finalize l =
     (if mEmojiStyle l = EMSTYLE_EMPTY then l\<lparr>mEmojiStyle := scriptToEmojiStyle (mScript l)\<rparr> else l)"

definition parseVariant :: "string \<Rightarrow> string \<Rightarrow> FontLanguage \<Rightarrow> string \<Rightarrow> string list \<Rightarrow> FontLanguage" where
  "parseVariant input language l token it =
     (if language = ''de'' then
        let l1 = (if token = ''1901'' then l\<lparr>mVariant := GERMAN_1901_ORTHOGRAPHY\<rparr>
                  else if token = ''1996'' then l\<lparr>mVariant := GERMAN_1996_ORTHOGRAPHY\<rparr>
                  else l)
        in if mVariant l1 \<noteq> NO_VARIANT \<and> it = [] then finalize l1
           else finalize (l1\<lparr>mEmojiStyle := resolveEmojiStyle input\<rparr>)
      else finalize (l\<lparr>mEmojiStyle := resolveEmojiStyle input\<rparr>))"

definition parseRegion :: "string \<Rightarrow> string \<Rightarrow> FontLanguage \<Rightarrow> string \<Rightarrow> string list \<Rightarrow> FontLanguage" where
  "parseRegion input language l token it =
     (if isValidRegionCode token then
        let l1 = l\<lparr>mRegion := packRegion token\<rparr>
        in if it = [] then finalize l1
           else parseVariant input language l1 (hd it) (tl it)
      else parseVariant input language l token it)"

definition parseScript :: "string \<Rightarrow> string \<Rightarrow> FontLanguage \<Rightarrow> string \<Rightarrow> string list \<Rightarrow> FontLanguage" where
  "parseScript input language l token it =
     (if isValidScriptCode token then
        let script = packScript (token ! 0) (token ! 1) (token ! 2) (token ! 3);
            l1 = l\<lparr>mScript := script, mSubScriptBits := scriptToSubScriptBits script\<rparr>
        in if it = [] then finalize l1
           else parseRegion input language l1 (hd it) (tl it)
      else parseRegion input language l token it)"

definition parseFontLanguage :: "string \<Rightarrow> FontLanguage" where
  "parseFontLanguage input =
     (let it = splitOn CHR ''-'' input;
          language = hd it
      in if isValidLanguageCode language then
           let l = defaultFontLanguage\<lparr>mLanguage := packLanguage language\<rparr>
           in if tl it = [] then l
              else parseScript input language l (hd (tl it)) (tl (tl it))
         else defaultFontLanguage)"

subsection \<open>Back to a string\<close>

definition byteOf :: "32 word \<Rightarrow> char" where
  "byteOf w = chr8 (ucast (w AND 0xFF))"

definition getString :: "FontLanguage \<Rightarrow> string" where
  "getString l =
     (let b0 = (if mLanguage l = NO_LANGUAGE then ''und'' else unpackLanguage (mLanguage l));
          b1 = (if mScript l \<noteq> NO_SCRIPT then
                  let rawScript = unpackScript (mScript l)
                  in b0 @ [CHR ''-'', byteOf (drop_bit 24 rawScript), byteOf (drop_bit 16 rawScript),
                           byteOf (drop_bit 8 rawScript), byteOf rawScript]
                else b0);
          b2 = (if mRegion l \<noteq> NO_REGION then b1 @ [CHR ''-''] @ unpackRegion (mRegion l) else b1)
      in if mVariant l \<noteq> NO_VARIANT then
           b2 @ ''-19'' @ (case mVariant l of
                             GERMAN_1901_ORTHOGRAPHY \<Rightarrow> ''01''
                           | GERMAN_1996_ORTHOGRAPHY \<Rightarrow> ''96''
                           | NO_VARIANT \<Rightarrow> [])
         else b2)"

subsection \<open>The BCP 47 subset of the specification\<close>

text \<open>
  The grammar of the specification,
  \<^verbatim>\<open>lang [ "-" script ] [ "-" region ] [ "-" variant ] [ "-u-em-" emojiSubtag ]\<close>,
  as a record of its parts. A variant belongs to the subset only for the language
  \<^verbatim>\<open>de\<close>. The canonical form of a tag is the tag without its emoji extension.
\<close>

record TagParts =
  langPart :: string
  scriptPart :: "string option"
  regionPart :: "string option"
  variantPart :: "string option"
  emojiPart :: "string option"

definition optPart :: "string \<Rightarrow> string option \<Rightarrow> string" where
  "optPart sep p = (case p of None \<Rightarrow> [] | Some t \<Rightarrow> sep @ t)"

definition renderTag :: "TagParts \<Rightarrow> string" where
  "renderTag p =
     langPart p @ optPart ''-'' (scriptPart p) @ optPart ''-'' (regionPart p) @
     optPart ''-'' (variantPart p) @ optPart ''-u-em-'' (emojiPart p)"

definition canonicalTag :: "TagParts \<Rightarrow> string" where
  "canonicalTag p = renderTag (p\<lparr>emojiPart := None\<rparr>)"

definition validTag :: "TagParts \<Rightarrow> bool" where
  "validTag p =
     (isValidLanguageCode (langPart p) \<and>
      (case scriptPart p of None \<Rightarrow> True | Some s \<Rightarrow> isValidScriptCode s) \<and>
      (case regionPart p of None \<Rightarrow> True | Some r \<Rightarrow> isValidRegionCode r) \<and>
      (case variantPart p of None \<Rightarrow> True
         | Some v \<Rightarrow> langPart p = ''de'' \<and> (v = ''1901'' \<or> v = ''1996'')) \<and>
      (case emojiPart p of None \<Rightarrow> True
         | Some e \<Rightarrow> e = ''emoji'' \<or> e = ''text'' \<or> e = ''default''))"


section \<open>The optimal line breaker: data\<close>

text \<open>
  Modelled from the spec: \<^verbatim>\<open>HyphenationType\<close> of \<^verbatim>\<open>Hyphenator.h\<close>, which is not
  among the sources. The spec lists: don't-break, break-without-hyphen, and a family of
  break-with-hyphen-edit variants. The two values that \<^verbatim>\<open>OptimalLineBreaker.cpp\<close> names
  keep their names; the family is indexed by a number.
\<close>

datatype HyphenationType = DONT_BREAK | BREAK_AND_DONT_INSERT_HYPHEN | BREAK_AND_EDIT nat

datatype HyphenationFrequency = HF_None | HF_Normal | HF_Full

datatype BreakStrategy = Greedy | HighQuality | Balanced

definition SCORE_INFTY :: real where
  "SCORE_INFTY = 340282346638528859811704183484516925440"

definition SCORE_OVERFULL :: real where
  "SCORE_OVERFULL = 1000000000000"

definition SCORE_DESPERATE :: real where
  "SCORE_DESPERATE = 10000000000"

definition LAST_LINE_PENALTY_MULTIPLIER :: real where
  "LAST_LINE_PENALTY_MULTIPLIER = 4"

definition LINE_PENALTY_MULTIPLIER :: real where
  "LINE_PENALTY_MULTIPLIER = 2"

definition SHRINK_PENALTY_MULTIPLIER :: real where
  "SHRINK_PENALTY_MULTIPLIER = 4"

definition SHRINKABILITY :: real where
  "SHRINKABILITY = 1 / 3"

record Candidate =
  offset :: nat
  preBreak :: real
  postBreak :: real
  penalty :: real
  preSpaceCount :: "32 word"
  postSpaceCount :: "32 word"
  hyphenType :: HyphenationType
  isRtl :: bool

record OptimizeContext =
  candidates :: "Candidate list"
  linePenalty :: real
  spaceWidth :: real

definition mkCandidate ::
  "nat \<Rightarrow> real \<Rightarrow> real \<Rightarrow> real \<Rightarrow> 32 word \<Rightarrow> 32 word \<Rightarrow> HyphenationType \<Rightarrow> bool \<Rightarrow> Candidate" where
  "mkCandidate off pre post pen preSp postSp ty rtl =
     \<lparr> offset = off, preBreak = pre, postBreak = post, penalty = pen,
       preSpaceCount = preSp, postSpaceCount = postSp, hyphenType = ty, isRtl = rtl \<rparr>"

definition emplace_back :: "Candidate \<Rightarrow> OptimizeContext \<Rightarrow> OptimizeContext" where
  "emplace_back c out = out\<lparr>candidates := candidates out @ [c]\<rparr>"

definition pushDesperate :: "nat \<Rightarrow> real \<Rightarrow> 32 word \<Rightarrow> bool \<Rightarrow> OptimizeContext \<Rightarrow> OptimizeContext" where
  "pushDesperate off sumOfCharWidths' spaceCount rtl out =
     emplace_back (mkCandidate off sumOfCharWidths' sumOfCharWidths' SCORE_DESPERATE
                     spaceCount spaceCount BREAK_AND_DONT_INSERT_HYPHEN rtl) out"

definition pushHyphenation ::
  "nat \<Rightarrow> real \<Rightarrow> real \<Rightarrow> real \<Rightarrow> 32 word \<Rightarrow> HyphenationType \<Rightarrow> bool \<Rightarrow> OptimizeContext \<Rightarrow> OptimizeContext" where
  "pushHyphenation off pre post pen spaceCount ty rtl out =
     emplace_back (mkCandidate off pre post pen spaceCount spaceCount ty rtl) out"

definition pushWordBreak ::
  "nat \<Rightarrow> real \<Rightarrow> real \<Rightarrow> real \<Rightarrow> 32 word \<Rightarrow> 32 word \<Rightarrow> bool \<Rightarrow> OptimizeContext \<Rightarrow> OptimizeContext" where
  "pushWordBreak off pre post pen preSp postSp rtl out =
     emplace_back (mkCandidate off pre post pen preSp postSp DONT_BREAK rtl) out"

text \<open>The constructor of \<^verbatim>\<open>OptimizeContext\<close>: the sentinel candidate at offset 0.\<close>

definition newOptimizeContext :: OptimizeContext where
  "newOptimizeContext =
     \<lparr> candidates = [mkCandidate 0 0 0 0 0 0 DONT_BREAK False], linePenalty = 0, spaceWidth = 0 \<rparr>"

subsection \<open>The inputs that come from outside\<close>

text \<open>
  Modelled from the spec: \<^verbatim>\<open>Range\<close> of \<^verbatim>\<open>Range.h\<close>, which is not among the sources:
  a half-open range of offsets, with containment, the split at an offset and the offset
  relative to the start.
\<close>

type_synonym Range = "nat \<times> nat"

definition getStart :: "Range \<Rightarrow> nat" where "getStart r = fst r"
definition getEnd :: "Range \<Rightarrow> nat" where "getEnd r = snd r"

definition contains :: "Range \<Rightarrow> Range \<Rightarrow> bool" where
  "contains r other = (getStart r \<le> getStart other \<and> getEnd other \<le> getEnd r)"

definition split :: "Range \<Rightarrow> nat \<Rightarrow> Range \<times> Range" where
  "split r i = ((getStart r, i), (i, getEnd r))"

definition toRangeOffset :: "Range \<Rightarrow> nat \<Rightarrow> nat" where
  "toRangeOffset r i = i - getStart r"

definition substr :: "'a list \<Rightarrow> Range \<Rightarrow> 'a list" where
  "substr text r = take (getEnd r - getStart r) (drop (getStart r) text)"

text \<open>
  A run, as far as the line breaker reads it. The hyphen edits that
  \<^verbatim>\<open>measureHyphenPiece\<close> receives are numbers; \<open>NO_EDIT\<close> is the number 0.
\<close>

record Run =
  runRange :: Range
  runIsRtl :: bool
  runLocaleListId :: nat
  runCanHyphenate :: bool
  paintSize :: real
  paintScaleX :: real
  measureHyphenPiece :: "16 word list \<Rightarrow> Range \<Rightarrow> nat \<Rightarrow> nat \<Rightarrow> real"

definition NO_EDIT :: nat where "NO_EDIT = 0"

record MeasuredText =
  widths :: "real list"
  runs :: "Run list"

record LineWidth =
  getAt :: "nat \<Rightarrow> real"
  getMin :: real

text \<open>
  The services that \<^verbatim>\<open>OptimalLineBreaker.cpp\<close> calls and does not define, as one
  record of functions. The word breaker is a state of type \<open>'b\<close> with its operations;
  a locale and a hyphenator are numbers; a null hyphenator is \<open>None\<close>.
\<close>

record 'b Services =
  isWordSpace :: "16 word \<Rightarrow> bool"
  isLineEndSpace :: "16 word \<Rightarrow> bool"
  getEffectiveLocale :: "nat \<Rightarrow> nat"
  lookupHyphenator :: "nat \<Rightarrow> nat"
  hyphenate :: "16 word list \<Rightarrow> nat option \<Rightarrow> HyphenationType list"
  editForThisLine :: "HyphenationType \<Rightarrow> nat"
  editForNextLine :: "HyphenationType \<Rightarrow> nat"
  breakerSetText :: "16 word list \<Rightarrow> 'b"
  followingWithLocale :: "nat \<Rightarrow> nat \<Rightarrow> 'b \<Rightarrow> nat \<times> 'b"
  breakerNext :: "'b \<Rightarrow> nat \<times> 'b"
  breakerWordRange :: "'b \<Rightarrow> Range"
  breakBadness :: "'b \<Rightarrow> int"
  kInvalidListId :: nat

text \<open>Modelled from the spec: the TAB code unit, \<^verbatim>\<open>CHAR_TAB\<close> of \<^verbatim>\<open>Characters.h\<close>.\<close>

definition CHAR_TAB :: "16 word" where
  "CHAR_TAB = 0x0009"

section \<open>The candidate builder\<close>

definition computePenalties :: "Run \<Rightarrow> LineWidth \<Rightarrow> HyphenationFrequency \<Rightarrow> bool \<Rightarrow> real \<times> real" where
  "computePenalties run lineWidth frequency justified =
     (let hyphenPenalty0 = 0.5 * paintSize run * paintScaleX run * getAt lineWidth 0;
          hyphenPenalty1 = (if frequency = HF_Normal then hyphenPenalty0 * 4.0 else hyphenPenalty0)
      in if justified then (hyphenPenalty1 * 0.25, 0)
         else (hyphenPenalty1, hyphenPenalty1 * LINE_PENALTY_MULTIPLIER))"

record 'b CharProcessor =
  rawSpaceCount :: "32 word"
  effectiveSpaceCount :: "32 word"
  sumOfCharWidths :: real
  effectiveWidth :: real
  sumOfCharWidthsAtPrevWordBreak :: real
  nextWordBreak :: nat
  prevWordBreak :: nat
  procSpaceWidth :: real
  hyphenator :: "nat option"
  localeListId :: nat
  breaker :: 'b

definition newCharProcessor :: "'b Services \<Rightarrow> 16 word list \<Rightarrow> 'b CharProcessor" where
  "newCharProcessor sv text =
     \<lparr> rawSpaceCount = 0, effectiveSpaceCount = 0, sumOfCharWidths = 0, effectiveWidth = 0,
       sumOfCharWidthsAtPrevWordBreak = 0, nextWordBreak = 0, prevWordBreak = 0,
       procSpaceWidth = 0, hyphenator = None, localeListId = kInvalidListId sv,
       breaker = breakerSetText sv text \<rparr>"

definition wordRange :: "'b Services \<Rightarrow> 'b CharProcessor \<Rightarrow> Range" where
  "wordRange sv proc = breakerWordRange sv (breaker proc)"

definition contextRange :: "'b CharProcessor \<Rightarrow> Range" where
  "contextRange proc = (prevWordBreak proc, nextWordBreak proc)"

definition widthFromLastWordBreak :: "'b CharProcessor \<Rightarrow> real" where
  "widthFromLastWordBreak proc = effectiveWidth proc - sumOfCharWidthsAtPrevWordBreak proc"

definition wordBreakPenalty :: "'b Services \<Rightarrow> 'b CharProcessor \<Rightarrow> int" where
  "wordBreakPenalty sv proc = breakBadness sv (breaker proc)"

definition updateLocaleIfNecessary :: "'b Services \<Rightarrow> Run \<Rightarrow> 'b CharProcessor \<Rightarrow> 'b CharProcessor" where
  "updateLocaleIfNecessary sv run proc =
     (let newLocaleListId = runLocaleListId run in
      if localeListId proc \<noteq> newLocaleListId then
        let locale = getEffectiveLocale sv newLocaleListId;
            (n, b) = followingWithLocale sv locale (getStart (runRange run)) (breaker proc)
        in proc\<lparr> nextWordBreak := n, breaker := b,
                 hyphenator := Some (lookupHyphenator sv locale),
                 localeListId := newLocaleListId \<rparr>
      else proc)"

text \<open>
  Modelled from the spec: \<^verbatim>\<open>MINIKIN_ASSERT\<close>, whose definition is not among the
  sources. The spec makes a TAB fatal for the paragraph; a failed assertion ends the pass
  with an error.
\<close>

datatype error = TabNotSupported

definition feedChar :: "'b Services \<Rightarrow> nat \<Rightarrow> 16 word \<Rightarrow> real \<Rightarrow> 'b CharProcessor \<Rightarrow> error + 'b CharProcessor" where
  "feedChar sv idx c w proc =
     (if c = CHAR_TAB then Inl TabNotSupported
      else
        let p1 = (if idx = nextWordBreak proc then
                    let (n, b) = breakerNext sv (breaker proc)
                    in proc\<lparr> prevWordBreak := nextWordBreak proc, nextWordBreak := n, breaker := b,
                             sumOfCharWidthsAtPrevWordBreak := sumOfCharWidths proc \<rparr>
                  else proc);
            p2 = (if isWordSpace sv c
                  then p1\<lparr> rawSpaceCount := rawSpaceCount p1 + 1, procSpaceWidth := w \<rparr>
                  else p1);
            p3 = p2\<lparr> sumOfCharWidths := sumOfCharWidths p2 + w \<rparr>
        in Inr (if isLineEndSpace sv c then p3
                else p3\<lparr> effectiveSpaceCount := rawSpaceCount p3,
                         effectiveWidth := sumOfCharWidths p3 \<rparr>))"

record HyphenBreak =
  hbOffset :: nat
  hbType :: HyphenationType
  hbFirst :: real
  hbSecond :: real

definition hyphenBreakAt :: "'b Services \<Rightarrow> 16 word list \<Rightarrow> Run \<Rightarrow> Range \<Rightarrow> Range \<Rightarrow> HyphenationType list \<Rightarrow> nat \<Rightarrow> HyphenBreak list" where
  "hyphenBreakAt sv textBuf run contextRange' wordRange' hyphenResult i =
     (let hyph = hyphenResult ! toRangeOffset wordRange' i in
      if hyph = DONT_BREAK then []
      else
        let hyphenPart = split contextRange' i;
            first = measureHyphenPiece run textBuf (fst hyphenPart) NO_EDIT (editForThisLine sv hyph);
            second = measureHyphenPiece run textBuf (snd hyphenPart) (editForNextLine sv hyph) NO_EDIT
        in [\<lparr> hbOffset = i, hbType = hyph, hbFirst = first, hbSecond = second \<rparr>])"

definition populateHyphenationPoints ::
  "'b Services \<Rightarrow> 16 word list \<Rightarrow> Run \<Rightarrow> nat option \<Rightarrow> Range \<Rightarrow> Range \<Rightarrow> HyphenBreak list" where
  "populateHyphenationPoints sv textBuf run hyphenator' contextRange' wordRange' =
     (if \<not> contains (runRange run) contextRange' \<or> \<not> contains contextRange' wordRange' then []
      else
        let hyphenResult = hyphenate sv (substr textBuf wordRange') hyphenator'
        in concat (map (hyphenBreakAt sv textBuf run contextRange' wordRange' hyphenResult)
                       [getStart wordRange' ..< getEnd wordRange']))"

record DesperateBreak =
  dbOffset :: nat
  sumOfChars :: real

fun desperateLoop :: "real list \<Rightarrow> nat list \<Rightarrow> real \<Rightarrow> DesperateBreak list" where
  "desperateLoop ws [] width' = []"
| "desperateLoop ws (i # rest) width' =
     (let w = ws ! i in
      if w = 0 then desperateLoop ws rest width'
      else \<lparr> dbOffset = i, sumOfChars = width' \<rparr> # desperateLoop ws rest (width' + w))"

definition populateDesperatePoints :: "MeasuredText \<Rightarrow> Range \<Rightarrow> DesperateBreak list" where
  "populateDesperatePoints measured r =
     desperateLoop (widths measured) [getStart r + 1 ..< getEnd r] (widths measured ! getStart r)"

fun appendWithMerging ::
  "HyphenBreak list \<Rightarrow> DesperateBreak list \<Rightarrow> 'b CharProcessor \<Rightarrow> real \<Rightarrow> bool \<Rightarrow> OptimizeContext \<Rightarrow> OptimizeContext" where
  "appendWithMerging [] [] proc hyphenPenalty rtl out = out"
| "appendWithMerging [] (d # ds) proc hyphenPenalty rtl out =
     appendWithMerging [] ds proc hyphenPenalty rtl
       (pushDesperate (dbOffset d) (sumOfCharWidthsAtPrevWordBreak proc + sumOfChars d)
          (effectiveSpaceCount proc) rtl out)"
| "appendWithMerging (h # hs) [] proc hyphenPenalty rtl out =
     appendWithMerging hs [] proc hyphenPenalty rtl
       (pushHyphenation (hbOffset h) (sumOfCharWidths proc - hbSecond h)
          (sumOfCharWidthsAtPrevWordBreak proc + hbFirst h) hyphenPenalty
          (effectiveSpaceCount proc) (hbType h) rtl out)"
| "appendWithMerging (h # hs) (d # ds) proc hyphenPenalty rtl out =
     (if dbOffset d \<le> hbOffset h then
        appendWithMerging (h # hs) ds proc hyphenPenalty rtl
          (pushDesperate (dbOffset d) (sumOfCharWidthsAtPrevWordBreak proc + sumOfChars d)
             (effectiveSpaceCount proc) rtl out)
      else
        appendWithMerging hs (d # ds) proc hyphenPenalty rtl
          (pushHyphenation (hbOffset h) (sumOfCharWidths proc - hbSecond h)
             (sumOfCharWidthsAtPrevWordBreak proc + hbFirst h) hyphenPenalty
             (effectiveSpaceCount proc) (hbType h) rtl out))"

text \<open>
  The body of the loop over the characters of a run, from the point where the character
  just fed ends a word: hyphenation and desperate break points, then the word break.
\<close>

definition hyphenedBreaksAt ::
  "'b Services \<Rightarrow> 16 word list \<Rightarrow> HyphenationFrequency \<Rightarrow> Run \<Rightarrow> 'b CharProcessor \<Rightarrow> HyphenBreak list" where
  "hyphenedBreaksAt sv textBuf frequency run proc =
     (if runCanHyphenate run \<and> frequency \<noteq> HF_None then
        populateHyphenationPoints sv textBuf run (hyphenator proc) (contextRange proc) (wordRange sv proc)
      else [])"

definition desperateBreaksAt :: "MeasuredText \<Rightarrow> real \<Rightarrow> 'b CharProcessor \<Rightarrow> DesperateBreak list" where
  "desperateBreaksAt measured minLineWidth proc =
     (if widthFromLastWordBreak proc > minLineWidth then
        populateDesperatePoints measured (contextRange proc)
      else [])"

definition wordBreakStep ::
  "'b Services \<Rightarrow> 16 word list \<Rightarrow> MeasuredText \<Rightarrow> real \<Rightarrow> HyphenationFrequency \<Rightarrow> Run \<Rightarrow> real \<Rightarrow>
   nat \<Rightarrow> 'b CharProcessor \<Rightarrow> OptimizeContext \<Rightarrow> OptimizeContext" where
  "wordBreakStep sv textBuf measured minLineWidth frequency run hyphenPenalty nextCharOffset proc result =
     (let hyphenedBreaks = hyphenedBreaksAt sv textBuf frequency run proc;
          desperateBreaks = desperateBreaksAt measured minLineWidth proc;
          result1 = appendWithMerging hyphenedBreaks desperateBreaks proc hyphenPenalty (runIsRtl run) result
      in if nextCharOffset = getEnd (runRange run) \<or> widths measured ! nextCharOffset > 0 then
           pushWordBreak nextCharOffset (sumOfCharWidths proc) (effectiveWidth proc)
             (hyphenPenalty * real_of_int (wordBreakPenalty sv proc))
             (rawSpaceCount proc) (effectiveSpaceCount proc) (runIsRtl run) result1
         else result1)"

definition processChar ::
  "'b Services \<Rightarrow> 16 word list \<Rightarrow> MeasuredText \<Rightarrow> real \<Rightarrow> HyphenationFrequency \<Rightarrow> Run \<Rightarrow> real \<Rightarrow>
   nat \<Rightarrow> 'b CharProcessor \<times> OptimizeContext \<Rightarrow> error + 'b CharProcessor \<times> OptimizeContext" where
  "processChar sv textBuf measured minLineWidth frequency run hyphenPenalty i st =
     (case feedChar sv i (textBuf ! i) (widths measured ! i) (fst st) of
        Inl e \<Rightarrow> Inl e
      | Inr proc \<Rightarrow>
          if i + 1 \<noteq> nextWordBreak proc then Inr (proc, snd st)
          else Inr (proc, wordBreakStep sv textBuf measured minLineWidth frequency run hyphenPenalty
                            (i + 1) proc (snd st)))"

fun processChars ::
  "'b Services \<Rightarrow> 16 word list \<Rightarrow> MeasuredText \<Rightarrow> real \<Rightarrow> HyphenationFrequency \<Rightarrow> Run \<Rightarrow> real \<Rightarrow>
   nat list \<Rightarrow> 'b CharProcessor \<times> OptimizeContext \<Rightarrow> error + 'b CharProcessor \<times> OptimizeContext" where
  "processChars sv textBuf measured minLineWidth frequency run hyphenPenalty [] st = Inr st"
| "processChars sv textBuf measured minLineWidth frequency run hyphenPenalty (i # rest) st =
     (case processChar sv textBuf measured minLineWidth frequency run hyphenPenalty i st of
        Inl e \<Rightarrow> Inl e
      | Inr st1 \<Rightarrow> processChars sv textBuf measured minLineWidth frequency run hyphenPenalty rest st1)"

definition processRun ::
  "'b Services \<Rightarrow> 16 word list \<Rightarrow> MeasuredText \<Rightarrow> LineWidth \<Rightarrow> HyphenationFrequency \<Rightarrow> bool \<Rightarrow> Run \<Rightarrow>
   'b CharProcessor \<times> OptimizeContext \<Rightarrow> error + 'b CharProcessor \<times> OptimizeContext" where
  "processRun sv textBuf measured lineWidth frequency isJustified run st =
     (let penalties = computePenalties run lineWidth frequency isJustified;
          hyphenPenalty = (if runCanHyphenate run then fst penalties else 0);
          result = (if runCanHyphenate run
                    then (snd st)\<lparr>linePenalty := max (snd penalties) (linePenalty (snd st))\<rparr>
                    else snd st);
          proc = updateLocaleIfNecessary sv run (fst st)
      in processChars sv textBuf measured (getMin lineWidth) frequency run hyphenPenalty
           [getStart (runRange run) ..< getEnd (runRange run)] (proc, result))"

fun processRuns ::
  "'b Services \<Rightarrow> 16 word list \<Rightarrow> MeasuredText \<Rightarrow> LineWidth \<Rightarrow> HyphenationFrequency \<Rightarrow> bool \<Rightarrow> Run list \<Rightarrow>
   'b CharProcessor \<times> OptimizeContext \<Rightarrow> error + 'b CharProcessor \<times> OptimizeContext" where
  "processRuns sv textBuf measured lineWidth frequency isJustified [] st = Inr st"
| "processRuns sv textBuf measured lineWidth frequency isJustified (run # rest) st =
     (case processRun sv textBuf measured lineWidth frequency isJustified run st of
        Inl e \<Rightarrow> Inl e
      | Inr st1 \<Rightarrow> processRuns sv textBuf measured lineWidth frequency isJustified rest st1)"

definition populateCandidates ::
  "'b Services \<Rightarrow> 16 word list \<Rightarrow> MeasuredText \<Rightarrow> LineWidth \<Rightarrow> HyphenationFrequency \<Rightarrow> bool \<Rightarrow>
   error + OptimizeContext" where
  "populateCandidates sv textBuf measured lineWidth frequency isJustified =
     (case processRuns sv textBuf measured lineWidth frequency isJustified (runs measured)
             (newCharProcessor sv textBuf, newOptimizeContext) of
        Inl e \<Rightarrow> Inl e
      | Inr st \<Rightarrow> Inr ((snd st)\<lparr>spaceWidth := procSpaceWidth (fst st)\<rparr>))"

section \<open>The optimizer\<close>

record OptimalBreaksData =
  score :: real
  prev :: nat
  lineNumber :: nat

text \<open>The variables of the loop over the candidates \<open>j\<close> for the beginning of a line.\<close>

record InnerState =
  active :: nat
  best :: real
  bestPrev :: nat
  lineNumberLast :: nat
  width :: real
  leftEdge :: real
  bestHope :: real

text \<open>Lines 495 to 504: the line number of \<open>j\<close> is compared with the last one seen.\<close>

definition refreshWidth :: "LineWidth \<Rightarrow> Candidate \<Rightarrow> nat \<Rightarrow> InnerState \<Rightarrow> InnerState" where
  "refreshWidth lineWidth candI lineNumber' st =
     (if lineNumber' \<noteq> lineNumberLast st then
        let widthNew = getAt lineWidth lineNumber';
            st1 = (if widthNew \<noteq> width st
                   then st\<lparr> leftEdge := postBreak candI - width st, bestHope := 0, width := widthNew \<rparr>
                   else st)
        in st1\<lparr> lineNumberLast := lineNumber' \<rparr>
      else st)"

text \<open>Lines 514 to 531: the pair (\<open>widthScore\<close>, \<open>additionalPenalty\<close>) of one line.\<close>

definition lineScore ::
  "bool \<Rightarrow> bool \<Rightarrow> BreakStrategy \<Rightarrow> real \<Rightarrow> Candidate \<Rightarrow> Candidate \<Rightarrow> real \<Rightarrow> real \<times> real" where
  "lineScore atEnd justified strategy maxShrink candI candJ delta =
     (if (atEnd \<or> \<not> justified) \<and> delta < 0 then (SCORE_OVERFULL, 0)
      else if atEnd \<and> strategy \<noteq> Balanced then (0, LAST_LINE_PENALTY_MULTIPLIER * penalty candJ)
      else
        (if delta < 0 then
           (if - delta < maxShrink * real (unat (postSpaceCount candI - preSpaceCount candJ))
            then delta * delta * SHRINK_PENALTY_MULTIPLIER
            else SCORE_OVERFULL)
         else delta * delta, 0))"

definition innerStep ::
  "LineWidth \<Rightarrow> BreakStrategy \<Rightarrow> bool \<Rightarrow> real \<Rightarrow> Candidate list \<Rightarrow> OptimalBreaksData list \<Rightarrow> bool \<Rightarrow> nat \<Rightarrow>
   InnerState \<Rightarrow> nat \<Rightarrow> InnerState" where
  "innerStep lineWidth strategy justified maxShrink cands breaksData atEnd i st j =
     (let st1 = refreshWidth lineWidth (cands ! i) (lineNumber (breaksData ! j)) st;
          jScore = score (breaksData ! j)
      in if jScore + bestHope st1 \<ge> best st1 then st1
         else
           let delta = preBreak (cands ! j) - leftEdge st1;
               ws = lineScore atEnd justified strategy maxShrink (cands ! i) (cands ! j) delta;
               st2 = (if delta < 0 then st1\<lparr> active := j + 1 \<rparr> else st1\<lparr> bestHope := fst ws \<rparr>);
               score' = jScore + fst ws + snd ws
           in if score' \<le> best st2 then st2\<lparr> best := score', bestPrev := j \<rparr> else st2)"

definition outerStep ::
  "OptimizeContext \<Rightarrow> LineWidth \<Rightarrow> BreakStrategy \<Rightarrow> bool \<Rightarrow> nat \<times> OptimalBreaksData list \<Rightarrow> nat \<Rightarrow>
   nat \<times> OptimalBreaksData list" where
  "outerStep context lineWidth strategy justified st i =
     (let cands = candidates context;
          nCand = length cands;
          maxShrink = (if justified then SHRINKABILITY * spaceWidth context else 0);
          active0 = fst st;
          breaksData = snd st;
          atEnd = (i = nCand - 1);
          lineNumberLast0 = lineNumber (breaksData ! active0);
          width0 = getAt lineWidth lineNumberLast0;
          st0 = \<lparr> active = active0, best = SCORE_INFTY, bestPrev = 0,
                  lineNumberLast = lineNumberLast0, width = width0,
                  leftEdge = postBreak (cands ! i) - width0, bestHope = 0 \<rparr>;
          st1 = foldl (innerStep lineWidth strategy justified maxShrink cands breaksData atEnd i) st0
                  [active0 ..< i]
      in (active st1,
          breaksData @ [\<lparr> score = best st1 + penalty (cands ! i) + linePenalty context,
                          prev = bestPrev st1,
                          lineNumber = lineNumber (breaksData ! bestPrev st1) + 1 \<rparr>]))"

text \<open>
  The dynamic programme of \<^verbatim>\<open>computeBreaks\<close>, up to the call of
  \<^verbatim>\<open>finishBreaksOptimal\<close>: the table \<^verbatim>\<open>breaksData\<close>.
\<close>

definition computeBreaksData ::
  "OptimizeContext \<Rightarrow> LineWidth \<Rightarrow> BreakStrategy \<Rightarrow> bool \<Rightarrow> OptimalBreaksData list" where
  "computeBreaksData context lineWidth strategy justified =
     snd (foldl (outerStep context lineWidth strategy justified)
            (0, [\<lparr> score = 0, prev = 0, lineNumber = 0 \<rparr>])
            [1 ..< length (candidates context)])"

section \<open>Notions used in the statements, and examples\<close>

subsection \<open>FontLanguage\<close>

text \<open>
  A supported tag is a full hit for a tag when the tag has an emoji style, the supported
  tag has the same one, and the two languages are equal.
\<close>

definition emojiLangHit :: "FontLanguage \<Rightarrow> FontLanguage \<Rightarrow> bool" where
  "emojiLangHit this s =
     (mEmojiStyle this \<noteq> EMSTYLE_EMPTY \<and> mEmojiStyle this = mEmojiStyle s \<and>
      mLanguage this = mLanguage s)"

text \<open>
  A letter or digit \<open>c\<close> lies in the field of a base character \<open>b\<close> when it is one of the
  26 characters from \<open>b\<close> on; \<open>fieldOf b c\<close> is the five-bit value it is packed to.
\<close>

definition fieldOf :: "char \<Rightarrow> char \<Rightarrow> nat" where
  "fieldOf b c = of_char c - of_char b"

definition inField :: "char \<Rightarrow> char \<Rightarrow> bool" where
  "inField b c = (of_char b \<le> (of_char c :: nat) \<and> of_char c - of_char b < (26::nat))"

definition scriptOK :: "char \<Rightarrow> char \<Rightarrow> char \<Rightarrow> char \<Rightarrow> bool" where
  "scriptOK c1 c2 c3 c4 = (inField CHR ''A'' c1 \<and> inField CHR ''a'' c2 \<and> inField CHR ''a'' c3 \<and> inField CHR ''a'' c4)"

text \<open>The tokens of a tag of the subset, and the variant that a variant token stands for.\<close>

definition optTok :: "string option \<Rightarrow> string list" where
  "optTok t = (case t of None \<Rightarrow> [] | Some s \<Rightarrow> [s])"

definition tagTokens :: "TagParts \<Rightarrow> string list" where
  "tagTokens p = langPart p # optTok (scriptPart p) @ optTok (regionPart p) @ optTok (variantPart p) @
     (case emojiPart p of None \<Rightarrow> [] | Some e \<Rightarrow> [''u'', ''em'', e])"

definition variantOfPart :: "string option \<Rightarrow> Variant" where
  "variantOfPart v = (if v = Some ''1901'' then GERMAN_1901_ORTHOGRAPHY
     else if v = Some ''1996'' then GERMAN_1996_ORTHOGRAPHY else NO_VARIANT)"

text \<open>
  Examples: the tag \<^verbatim>\<open>en\<close> with the emoji style \<^verbatim>\<open>emoji\<close>; the parts of
  \<^verbatim>\<open>de-Latn-DE-1996-u-em-emoji\<close> and of \<^verbatim>\<open>en-u-em-emoji\<close>.
\<close>

definition tagEnEmoji :: FontLanguage where
  "tagEnEmoji = defaultFontLanguage\<lparr> mLanguage := packLanguage ''en'', mEmojiStyle := EMSTYLE_EMOJI \<rparr>"

definition tagDeFull :: TagParts where
  "tagDeFull = \<lparr> langPart = ''de'', scriptPart = Some ''Latn'', regionPart = Some ''DE'',
                 variantPart = Some ''1996'', emojiPart = Some ''emoji'' \<rparr>"

definition tagEnEmojiParts :: TagParts where
  "tagEnEmojiParts = \<lparr> langPart = ''en'', scriptPart = None, regionPart = None,
                       variantPart = None, emojiPart = Some ''emoji'' \<rparr>"

subsection \<open>The optimizer\<close>



text \<open>
  An example: line 0 is 100 wide, line 1 is 50 wide, every later line 100 again; three
  words of width 60. And a state of the inner loop on line 0, with the table after the
  first word.
\<close>

definition lineWidth3 :: LineWidth where
  "lineWidth3 = \<lparr> getAt = (\<lambda>n. if n = 1 then 50 else 100), getMin = 50 \<rparr>"

definition lineWidthConst :: LineWidth where
  "lineWidthConst = \<lparr> getAt = (\<lambda>n. 100), getMin = 100 \<rparr>"

definition context3 :: OptimizeContext where
  "context3 =
     \<lparr> candidates = [mkCandidate 0 0 0 0 0 0 DONT_BREAK False,
                     mkCandidate 6 60 60 0 0 0 DONT_BREAK False,
                     mkCandidate 12 120 120 0 0 0 DONT_BREAK False,
                     mkCandidate 18 180 180 0 0 0 DONT_BREAK False],
       linePenalty = 0, spaceWidth = 0 \<rparr>"

definition innerState0 :: InnerState where
  "innerState0 = \<lparr> active = 0, best = SCORE_INFTY, bestPrev = 0, lineNumberLast = 0,
                   width = 100, leftEdge = 20, bestHope = 25 \<rparr>"

definition breaksData2 :: "OptimalBreaksData list" where
  "breaksData2 = [\<lparr> score = 0, prev = 0, lineNumber = 0 \<rparr>, \<lparr> score = 1600, prev = 0, lineNumber = 1 \<rparr>]"

subsection \<open>The candidate builder\<close>

text \<open>
  The order in which \<^verbatim>\<open>appendWithMerging\<close> takes the breaks of its two lists, and the
  candidate it builds from each: \<open>Inl\<close> is a hyphenation break, \<open>Inr\<close> a desperate one.
\<close>

fun mergeOrder :: "HyphenBreak list \<Rightarrow> DesperateBreak list \<Rightarrow> (HyphenBreak + DesperateBreak) list" where
  "mergeOrder [] [] = []"
| "mergeOrder [] (d # ds) = Inr d # mergeOrder [] ds"
| "mergeOrder (h # hs) [] = Inl h # mergeOrder hs []"
| "mergeOrder (h # hs) (d # ds) =
     (if dbOffset d \<le> hbOffset h then Inr d # mergeOrder (h # hs) ds
      else Inl h # mergeOrder hs (d # ds))"

definition desperateCandidate :: "'b CharProcessor \<Rightarrow> bool \<Rightarrow> DesperateBreak \<Rightarrow> Candidate" where
  "desperateCandidate proc rtl d =
     mkCandidate (dbOffset d) (sumOfCharWidthsAtPrevWordBreak proc + sumOfChars d)
       (sumOfCharWidthsAtPrevWordBreak proc + sumOfChars d) SCORE_DESPERATE
       (effectiveSpaceCount proc) (effectiveSpaceCount proc) BREAK_AND_DONT_INSERT_HYPHEN rtl"

definition hyphenationCandidate :: "'b CharProcessor \<Rightarrow> real \<Rightarrow> bool \<Rightarrow> HyphenBreak \<Rightarrow> Candidate" where
  "hyphenationCandidate proc hyphenPenalty rtl h =
     mkCandidate (hbOffset h) (sumOfCharWidths proc - hbSecond h)
       (sumOfCharWidthsAtPrevWordBreak proc + hbFirst h) hyphenPenalty
       (effectiveSpaceCount proc) (effectiveSpaceCount proc) (hbType h) rtl"

definition mergedCandidate :: "'b CharProcessor \<Rightarrow> real \<Rightarrow> bool \<Rightarrow> HyphenBreak + DesperateBreak \<Rightarrow> Candidate" where
  "mergedCandidate proc hyphenPenalty rtl x =
     (case x of Inl h \<Rightarrow> hyphenationCandidate proc hyphenPenalty rtl h
              | Inr d \<Rightarrow> desperateCandidate proc rtl d)"

definition mergedOffset :: "HyphenBreak + DesperateBreak \<Rightarrow> nat" where
  "mergedOffset x = (case x of Inl h \<Rightarrow> hbOffset h | Inr d \<Rightarrow> dbOffset d)"

definition isDesperateShaped :: "Candidate \<Rightarrow> bool" where
  "isDesperateShaped c =
     (preBreak c = postBreak c \<and> preSpaceCount c = postSpaceCount c \<and>
      penalty c = SCORE_DESPERATE \<and> hyphenType c = BREAK_AND_DONT_INSERT_HYPHEN)"

text \<open>
  The sum of the widths over a range of offsets, and the interior points of a range: the
  offsets strictly inside it whose width is not zero, each with the sum of the widths from
  the start of the range.
\<close>

definition sumRange :: "real list \<Rightarrow> nat \<Rightarrow> nat \<Rightarrow> real" where
  "sumRange ws a b = sum_list (map ((!) ws) [a ..< b])"

definition interiorPoints :: "real list \<Rightarrow> Range \<Rightarrow> DesperateBreak list" where
  "interiorPoints ws r =
     map (\<lambda>i. \<lparr> dbOffset = i, sumOfChars = sumRange ws (getStart r) i \<rparr>)
         (filter (\<lambda>i. ws ! i \<noteq> 0) [getStart r + 1 ..< getEnd r])"


text \<open>The offsets whose code units are fed to the character processor.\<close>

definition fedOffsets :: "Run list \<Rightarrow> nat set" where
  "fedOffsets rs = (\<Union>run\<in>set rs. {getStart (runRange run) ..< getEnd (runRange run)})"

text \<open>The candidates that one step appends: the merged breaks, then the word break.\<close>

definition wordBreakCandidate :: "'b Services \<Rightarrow> real \<Rightarrow> bool \<Rightarrow> nat \<Rightarrow> 'b CharProcessor \<Rightarrow> Candidate" where
  "wordBreakCandidate sv hp rtl n proc =
     mkCandidate n (sumOfCharWidths proc) (effectiveWidth proc)
       (hp * real_of_int (wordBreakPenalty sv proc))
       (rawSpaceCount proc) (effectiveSpaceCount proc) DONT_BREAK rtl"

definition stepCandidates ::
  "'b Services \<Rightarrow> 16 word list \<Rightarrow> MeasuredText \<Rightarrow> real \<Rightarrow> HyphenationFrequency \<Rightarrow> Run \<Rightarrow> real \<Rightarrow>
   nat \<Rightarrow> 'b CharProcessor \<Rightarrow> Candidate list" where
  "stepCandidates sv textBuf measured m freq run hp n proc =
     map (mergedCandidate proc hp (runIsRtl run))
       (mergeOrder (hyphenedBreaksAt sv textBuf freq run proc) (desperateBreaksAt measured m proc)) @
     (if n = getEnd (runRange run) \<or> widths measured ! n > 0
      then [wordBreakCandidate sv hp (runIsRtl run) n proc] else [])"











subsection \<open>Services and paragraphs for the examples\<close>

text \<open>
  A set of services for examples: the spaces of Unicode that end a line, no hyphenation,
  and a word breaker that walks through the list of boundaries of the locale in use.
  \<^verbatim>\<open>followingWithLocale\<close> answers the first boundary of the new locale at or after the
  given offset; a breaker that runs out of boundaries answers \<open>DONE\<close>, the
  \<^verbatim>\<open>uint32_t\<close> image of \<open>-1\<close>.
\<close>

definition DONE :: nat where "DONE = 4294967295"

definition popBoundary :: "nat list \<Rightarrow> nat \<times> nat list" where
  "popBoundary bs = (case bs of [] \<Rightarrow> (DONE, []) | x # xs \<Rightarrow> (x, xs))"

definition exampleServices :: "(nat \<Rightarrow> nat list) \<Rightarrow> nat list Services" where
  "exampleServices bounds =
     \<lparr> isWordSpace = (\<lambda>c. c = 0x0020 \<or> c = 0x00A0),
       isLineEndSpace = (\<lambda>c. c = 0x000A \<or> c = 0x0020 \<or> c = 0x1680 \<or>
                              (0x2000 \<le> c \<and> c \<le> 0x200A \<and> c \<noteq> 0x2007) \<or> c = 0x205F \<or> c = 0x3000),
       getEffectiveLocale = (\<lambda>l. l),
       lookupHyphenator = (\<lambda>l. l),
       hyphenate = (\<lambda>w h. replicate (length w) DONT_BREAK),
       editForThisLine = (\<lambda>t. 0),
       editForNextLine = (\<lambda>t. 0),
       breakerSetText = (\<lambda>t. []),
       followingWithLocale = (\<lambda>locale from b. popBoundary (dropWhile (\<lambda>x. x < from) (bounds locale))),
       breakerNext = popBoundary,
       breakerWordRange = (\<lambda>b. (0, 0)),
       breakBadness = (\<lambda>b. 0),
       kInvalidListId = DONE \<rparr>"

definition plainRun :: "nat \<Rightarrow> nat \<Rightarrow> nat \<Rightarrow> Run" where
  "plainRun a b lid =
     \<lparr> runRange = (a, b), runIsRtl = False, runLocaleListId = lid, runCanHyphenate = False,
       paintSize = 10, paintScaleX = 1, measureHyphenPiece = (\<lambda>t r s e. 0) \<rparr>"

definition lineWidth15 :: LineWidth where
  "lineWidth15 = \<lparr> getAt = (\<lambda>n. 15), getMin = 15 \<rparr>"

text \<open>
  The text \<^verbatim>\<open>"ab  "\<close> in one run, with its only boundary at the end, and the processor
  after its last character.
\<close>

definition textTrailing :: "16 word list" where "textTrailing = [0x61, 0x62, 0x20, 0x20]"

definition measuredTrailing :: MeasuredText where
  "measuredTrailing = \<lparr> widths = [10, 10, 5, 5], runs = [plainRun 0 4 1] \<rparr>"

definition procAtEnd :: "nat list CharProcessor" where
  "procAtEnd =
     \<lparr> rawSpaceCount = 2, effectiveSpaceCount = 0, sumOfCharWidths = 30, effectiveWidth = 20,
       sumOfCharWidthsAtPrevWordBreak = 0, nextWordBreak = 4, prevWordBreak = 0,
       procSpaceWidth = 5, hyphenator = Some 1, localeListId = 1, breaker = [] \<rparr>"







text \<open>A text with a TAB, and breaks for an example of the merge.\<close>

definition textTab :: "16 word list" where "textTab = [0x61, 0x09, 0x62]"

definition measuredTab :: MeasuredText where
  "measuredTab = \<lparr> widths = [10, 10, 10], runs = [plainRun 0 3 1] \<rparr>"



section \<open>Properties of FontLanguage\<close>

subsection \<open>The score of a tag against a list of supported tags\<close>

lemma calcScoreLoop_Inl:
  "calcScoreLoop this xs fl = Inl r \<Longrightarrow> r = 4 \<and> list_ex (emojiLangHit this) xs"
  by (induction xs arbitrary: fl) (auto simp: Let_def emojiLangHit_def split: if_splits)

lemma calcScoreLoop_Inr:
  "calcScoreLoop this xs fl = Inr fl' \<Longrightarrow> \<not> list_ex (emojiLangHit this) xs"
  by (induction xs arbitrary: fl) (auto simp: Let_def emojiLangHit_def split: if_splits)

text \<open>
  Claim C6. For every tag and every list of supported tags, \<^verbatim>\<open>calcScoreFor\<close> returns a
  value between 0 and 4, and it returns 4 exactly when some supported tag has the tag's
  (non-empty) emoji style and the tag's language. The statement holds for any values of
  the two summary fields of the list.
\<close>

theorem calcScoreFor_range_and_four:
  "0 \<le> calcScoreFor this supported \<and> calcScoreFor this supported \<le> 4 \<and>
   (calcScoreFor this supported = 4) = list_ex (emojiLangHit this) (mLanguages supported)"
proof (cases "calcScoreLoop this (mLanguages supported)
             \<lparr> languageScriptMatch = False, subtagMatch = False, scriptMatch = False \<rparr>")
  case (Inl r)
  from calcScoreLoop_Inl [OF Inl] show ?thesis
    by (simp add: calcScoreFor_def Inl)
next
  case (Inr fl)
  from calcScoreLoop_Inr [OF Inr] show ?thesis
    by (simp add: calcScoreFor_def Inr Let_def)
qed

theorem calcScoreFor_range_and_four_witness:
  "calcScoreFor tagEnEmoji (mkFontLanguages [defaultFontLanguage, tagEnEmoji]) = 4 \<and>
   list_ex (emojiLangHit tagEnEmoji) [defaultFontLanguage, tagEnEmoji]"
  using calcScoreFor_range_and_four [of tagEnEmoji "mkFontLanguages [defaultFontLanguage, tagEnEmoji]"]
  by (simp add: mkFontLanguages_def emojiLangHit_def tagEnEmoji_def defaultFontLanguage_def)

subsection \<open>Packed codes unpack to themselves\<close>

lemma pack3_fields_tb:
  fixes x y z :: "16 word"
  shows "drop_bit 10 (push_bit 10 (take_bit 5 x) OR push_bit 5 (take_bit 5 y) OR take_bit 5 z) AND mask 5 = take_bit 5 x"
    and "drop_bit 5 (push_bit 10 (take_bit 5 x) OR push_bit 5 (take_bit 5 y) OR take_bit 5 z) AND mask 5 = take_bit 5 y"
    and "(push_bit 10 (take_bit 5 x) OR push_bit 5 (take_bit 5 y) OR take_bit 5 z) AND mask 5 = take_bit 5 z"
    apply (rule bit_word_eqI; auto simp: bit_simps)
    apply (rule bit_word_eqI; auto simp: bit_simps)
    apply (rule bit_word_eqI; auto simp: bit_simps)
  done

lemma pack4_fields_tb:
  fixes w x y z :: "32 word"
  shows "drop_bit 15 (push_bit 15 (take_bit 5 w) OR push_bit 10 (take_bit 5 x) OR push_bit 5 (take_bit 5 y) OR take_bit 5 z) = take_bit 5 w"
    and "drop_bit 10 (push_bit 15 (take_bit 5 w) OR push_bit 10 (take_bit 5 x) OR push_bit 5 (take_bit 5 y) OR take_bit 5 z) AND mask 5 = take_bit 5 x"
    and "drop_bit 5 (push_bit 15 (take_bit 5 w) OR push_bit 10 (take_bit 5 x) OR push_bit 5 (take_bit 5 y) OR take_bit 5 z) AND mask 5 = take_bit 5 y"
    and "(push_bit 15 (take_bit 5 w) OR push_bit 10 (take_bit 5 x) OR push_bit 5 (take_bit 5 y) OR take_bit 5 z) AND mask 5 = take_bit 5 z"
    apply (rule bit_word_eqI; auto simp: bit_simps)
    apply (rule bit_word_eqI; auto simp: bit_simps)
    apply (rule bit_word_eqI; auto simp: bit_simps)
    apply (rule bit_word_eqI; auto simp: bit_simps)
  done

lemma tb5_small: "n < 32 \<Longrightarrow> take_bit 5 (word_of_nat n :: 'a::len word) = word_of_nat n"
  by (simp add: take_bit_of_nat take_bit_nat_eq_self_iff[THEN iffD2])

text \<open>A packed triple of small fields, unpacked.\<close>

lemma pack3_fields:
  fixes a b c :: nat
  assumes "a < 32" "b < 32" "c < 32"
  defines "w \<equiv> (push_bit 10 (word_of_nat a) OR push_bit 5 (word_of_nat b) OR word_of_nat c :: 16 word)"
  shows "drop_bit 10 w AND FIVE_BITS = word_of_nat a"
    and "drop_bit 5 w AND FIVE_BITS = word_of_nat b"
    and "w AND FIVE_BITS = word_of_nat c"
proof -
  have m: "(FIVE_BITS :: 16 word) = mask 5" by (simp add: FIVE_BITS_def mask_eq_exp_minus_1)
  have w: "w = push_bit 10 (take_bit 5 (word_of_nat a)) OR push_bit 5 (take_bit 5 (word_of_nat b)) OR take_bit 5 (word_of_nat c)"
    using assms by (simp add: tb5_small)
  show "drop_bit 10 w AND FIVE_BITS = word_of_nat a"
    unfolding m w pack3_fields_tb using assms by (simp add: tb5_small)
  show "drop_bit 5 w AND FIVE_BITS = word_of_nat b"
    unfolding m w pack3_fields_tb using assms by (simp add: tb5_small)
  show "w AND FIVE_BITS = word_of_nat c"
    unfolding m w pack3_fields_tb using assms by (simp add: tb5_small)
qed

lemma pack4_fields:
  fixes a b c d :: nat
  assumes "a < 32" "b < 32" "c < 32" "d < 32"
  defines "w \<equiv> (push_bit 15 (word_of_nat a) OR push_bit 10 (word_of_nat b) OR push_bit 5 (word_of_nat c) OR word_of_nat d :: 32 word)"
  shows "drop_bit 15 w = word_of_nat a"
    and "drop_bit 10 w AND FIVE_BITS = word_of_nat b"
    and "drop_bit 5 w AND FIVE_BITS = word_of_nat c"
    and "w AND FIVE_BITS = word_of_nat d"
proof -
  have m: "(FIVE_BITS :: 32 word) = mask 5" by (simp add: FIVE_BITS_def mask_eq_exp_minus_1)
  have w: "w = push_bit 15 (take_bit 5 (word_of_nat a)) OR push_bit 10 (take_bit 5 (word_of_nat b)) OR push_bit 5 (take_bit 5 (word_of_nat c)) OR take_bit 5 (word_of_nat d)"
    using assms by (simp add: tb5_small)
  show "drop_bit 15 w = word_of_nat a"
    unfolding m w pack4_fields_tb using assms by (simp add: tb5_small)
  show "drop_bit 10 w AND FIVE_BITS = word_of_nat b"
    unfolding m w pack4_fields_tb using assms by (simp add: tb5_small)
  show "drop_bit 5 w AND FIVE_BITS = word_of_nat c"
    unfolding m w pack4_fields_tb using assms by (simp add: tb5_small)
  show "w AND FIVE_BITS = word_of_nat d"
    unfolding m w pack4_fields_tb using assms by (simp add: tb5_small)
qed

lemma fieldOf_lt: "inField b c \<Longrightarrow> fieldOf b c < 26"
  by (simp add: inField_def fieldOf_def)

lemma ord16_diff: "inField b c \<Longrightarrow> ord16 c - ord16 b = word_of_nat (fieldOf b c)"
  by (simp add: ord16_def inField_def fieldOf_def)

lemma ord32_diff: "inField b c \<Longrightarrow> ord32 c - ord32 b = word_of_nat (fieldOf b c)"
  by (simp add: ord32_def inField_def fieldOf_def)

lemma ucast_small: "x < 26 \<Longrightarrow> (ucast (word_of_nat x :: 16 word) :: 8 word) = word_of_nat x"
  by (simp add: unsigned_of_nat take_bit_nat_eq_self)

lemma word_small_ne31: "x < 26 \<Longrightarrow> (word_of_nat x :: 'a::len word) \<noteq> 0x1f" if "8 \<le> LENGTH('a)"
proof
  assume a: "x < 26" "(word_of_nat x :: 'a word) = 0x1f"
  have "(2::nat) ^ 8 \<le> 2 ^ LENGTH('a)" using that by (intro power_increasing) simp_all
  hence b: "x < 2 ^ LENGTH('a)" "31 < (2::nat) ^ LENGTH('a)" using a(1) by simp_all
  have "unat (word_of_nat x :: 'a word) = x"
    using b(1) by (simp add: unat_of_nat)
  moreover have "unat (0x1f :: 'a word) = 31"
    using b(2) by (metis of_nat_numeral unat_of_nat mod_less)
  ultimately show False using a by simp
qed

lemma ucast_small_ne31: "x < 26 \<Longrightarrow> (ucast (word_of_nat x :: 16 word) :: 8 word) \<noteq> 0x1f"
  by (simp add: ucast_small word_small_ne31)

lemma chr8_field:
  assumes "inField b c"
  shows "chr8 (ucast (word_of_nat (fieldOf b c) :: 16 word) + word_of_nat (of_char b)) = c"
proof -
  have "(ucast (word_of_nat (fieldOf b c) :: 16 word) :: 8 word) = word_of_nat (fieldOf b c)"
    using assms by (simp add: ucast_small fieldOf_lt)
  hence "(ucast (word_of_nat (fieldOf b c) :: 16 word) :: 8 word) + word_of_nat (of_char b) = word_of_nat (of_char c)"
    using assms by (simp add: inField_def fieldOf_def)
  moreover have "unat (word_of_nat (of_char c) :: 8 word) = of_char c"
    using of_char_mod_256 [of c, where ?'a = nat] by (simp add: unat_of_nat)
  ultimately show ?thesis by (simp add: chr8_def)
qed

lemma unpack_pack2:
  assumes "inField t2 a" "inField t2 b"
  shows "unpackLanguageOrRegion (packLanguageOrRegion [a, b] t2 t3) t2 t3 = [a, b]"
proof -
  define w :: "16 word" where
    "w = push_bit 10 (word_of_nat 31) OR push_bit 5 (word_of_nat (fieldOf t2 a)) OR word_of_nat (fieldOf t2 b)"
  have xy: "fieldOf t2 a < 32" "fieldOf t2 b < 32" using assms fieldOf_lt by fastforce+
  have p: "packLanguageOrRegion [a, b] t2 t3 = w"
    using assms by (simp add: packLanguageOrRegion_def ord16_diff w_def)
  have f: "drop_bit 10 w AND FIVE_BITS = word_of_nat 31"
          "drop_bit 5 w AND FIVE_BITS = word_of_nat (fieldOf t2 a)"
          "w AND FIVE_BITS = word_of_nat (fieldOf t2 b)"
    unfolding w_def using xy by (rule_tac [!] pack3_fields) simp_all
  show ?thesis
    unfolding p unpackLanguageOrRegion_def Let_def f chr8_field [OF assms(1)] chr8_field [OF assms(2)]
    by simp
qed

lemma unpack_pack3:
  assumes "inField t3 a" "inField t3 b" "inField t3 c"
  shows "unpackLanguageOrRegion (packLanguageOrRegion [a, b, c] t2 t3) t2 t3 = [a, b, c]"
proof -
  define w :: "16 word" where
    "w = push_bit 10 (word_of_nat (fieldOf t3 a)) OR push_bit 5 (word_of_nat (fieldOf t3 b)) OR word_of_nat (fieldOf t3 c)"
  have xy: "fieldOf t3 a < 32" "fieldOf t3 b < 32" "fieldOf t3 c < 32" using assms fieldOf_lt by fastforce+
  have p: "packLanguageOrRegion [a, b, c] t2 t3 = w"
    using assms by (simp add: packLanguageOrRegion_def ord16_diff w_def)
  have f: "drop_bit 10 w AND FIVE_BITS = word_of_nat (fieldOf t3 a)"
          "drop_bit 5 w AND FIVE_BITS = word_of_nat (fieldOf t3 b)"
          "w AND FIVE_BITS = word_of_nat (fieldOf t3 c)"
    unfolding w_def using xy by (rule_tac [!] pack3_fields) simp_all
  show ?thesis
    unfolding p unpackLanguageOrRegion_def Let_def f
      chr8_field [OF assms(1)] chr8_field [OF assms(2)] chr8_field [OF assms(3)]
    using ucast_small_ne31 [OF fieldOf_lt [OF assms(1)]] by simp
qed

lemma low_field_ne_sentinel:
  fixes w :: "16 word"
  assumes "w AND FIVE_BITS = word_of_nat z" "z < 26"
  shows "w \<noteq> 0x7fff"
proof
  assume "w = 0x7fff"
  with assms(1) have "(word_of_nat z :: 16 word) = 0x1f" by (simp add: FIVE_BITS_def)
  with word_small_ne31 [OF _ assms(2), where ?'a = 16] show False by simp
qed

lemma pack2_ne_sentinel:
  assumes "inField t2 a" "inField t2 b"
  shows "packLanguageOrRegion [a, b] t2 t3 \<noteq> 0x7fff"
proof -
  define w :: "16 word" where
    "w = push_bit 10 (word_of_nat 31) OR push_bit 5 (word_of_nat (fieldOf t2 a)) OR word_of_nat (fieldOf t2 b)"
  have xy: "fieldOf t2 a < 32" "fieldOf t2 b < 32" using assms fieldOf_lt by fastforce+
  have p: "packLanguageOrRegion [a, b] t2 t3 = w"
    using assms by (simp add: packLanguageOrRegion_def ord16_diff w_def)
  have "w AND FIVE_BITS = word_of_nat (fieldOf t2 b)"
    unfolding w_def using xy by (rule_tac pack3_fields) simp_all
  thus ?thesis unfolding p using fieldOf_lt [OF assms(2)] by (rule low_field_ne_sentinel)
qed

lemma pack3_ne_sentinel:
  assumes "inField t3 a" "inField t3 b" "inField t3 c"
  shows "packLanguageOrRegion [a, b, c] t2 t3 \<noteq> 0x7fff"
proof -
  define w :: "16 word" where
    "w = push_bit 10 (word_of_nat (fieldOf t3 a)) OR push_bit 5 (word_of_nat (fieldOf t3 b)) OR word_of_nat (fieldOf t3 c)"
  have xy: "fieldOf t3 a < 32" "fieldOf t3 b < 32" "fieldOf t3 c < 32" using assms fieldOf_lt by fastforce+
  have p: "packLanguageOrRegion [a, b, c] t2 t3 = w"
    using assms by (simp add: packLanguageOrRegion_def ord16_diff w_def)
  have "w AND FIVE_BITS = word_of_nat (fieldOf t3 c)"
    unfolding w_def using xy by (rule_tac pack3_fields) simp_all
  thus ?thesis unfolding p using fieldOf_lt [OF assms(3)] by (rule low_field_ne_sentinel)
qed

text \<open>The four letters of a script code.\<close>

lemma bytes4_tb:
  fixes a b c d :: "32 word"
  defines "r \<equiv> push_bit 24 (take_bit 8 a) OR push_bit 16 (take_bit 8 b) OR push_bit 8 (take_bit 8 c) OR take_bit 8 d"
  shows "drop_bit 24 r AND mask 8 = take_bit 8 a"
    and "drop_bit 16 r AND mask 8 = take_bit 8 b"
    and "drop_bit 8 r AND mask 8 = take_bit 8 c"
    and "r AND mask 8 = take_bit 8 d"
  unfolding r_def
     apply (rule bit_word_eqI; auto simp: bit_simps)
    apply (rule bit_word_eqI; auto simp: bit_simps)
   apply (rule bit_word_eqI; auto simp: bit_simps)
  apply (rule bit_word_eqI; auto simp: bit_simps)
  done

lemma ord32_tb: "take_bit 8 (ord32 c) = ord32 c"
  by (simp add: ord32_def take_bit_of_nat take_bit_nat_eq_self)

lemma chr8_ord32: "chr8 (ucast (ord32 c)) = c"
proof -
  have lt: "of_char c < (256::nat)" by simp
  hence "of_char c < (4294967296::nat)" by linarith
  hence "take_bit 32 (of_char c :: nat) = of_char c"
    by (simp add: take_bit_nat_eq_self_iff)
  hence "(ucast (ord32 c) :: 8 word) = word_of_nat (of_char c)"
    by (simp add: ord32_def unsigned_of_nat)
  moreover have "unat (word_of_nat (of_char c) :: 8 word) = of_char c"
    using of_char_mod_256 [of c, where ?'a = nat] by (simp add: unat_of_nat)
  ultimately show ?thesis by (simp add: chr8_def)
qed

lemma bytes4:
  fixes a b c d :: char
  defines "r \<equiv> push_bit 24 (ord32 a) OR push_bit 16 (ord32 b) OR push_bit 8 (ord32 c) OR ord32 d"
  shows "byteOf (drop_bit 24 r) = a" "byteOf (drop_bit 16 r) = b" "byteOf (drop_bit 8 r) = c" "byteOf r = d"
proof -
  have m: "(0xFF :: 32 word) = mask 8" by (simp add: mask_eq_exp_minus_1)
  note f = bytes4_tb [of "ord32 a" "ord32 b" "ord32 c" "ord32 d", unfolded ord32_tb, folded r_def]
  show "byteOf (drop_bit 24 r) = a" "byteOf (drop_bit 16 r) = b" "byteOf (drop_bit 8 r) = c" "byteOf r = d"
    unfolding byteOf_def m f chr8_ord32 by (rule refl)+
qed

lemma ord32_field: "inField b c \<Longrightarrow> word_of_nat (fieldOf b c) + ord32 b = ord32 c"
  by (simp add: ord32_def inField_def fieldOf_def)

lemma packScript_fields:
  assumes "scriptOK c1 c2 c3 c4"
  defines "w \<equiv> packScript c1 c2 c3 c4"
  shows "drop_bit 15 w = word_of_nat (fieldOf CHR ''A'' c1)"
    and "drop_bit 10 w AND FIVE_BITS = word_of_nat (fieldOf CHR ''a'' c2)"
    and "drop_bit 5 w AND FIVE_BITS = word_of_nat (fieldOf CHR ''a'' c3)"
    and "w AND FIVE_BITS = word_of_nat (fieldOf CHR ''a'' c4)"
proof -
  have lt: "fieldOf CHR ''A'' c1 < 32" "fieldOf CHR ''a'' c2 < 32" "fieldOf CHR ''a'' c3 < 32" "fieldOf CHR ''a'' c4 < 32"
    using assms(1) fieldOf_lt unfolding scriptOK_def by fastforce+
  have w: "w = push_bit 15 (word_of_nat (fieldOf CHR ''A'' c1)) OR push_bit 10 (word_of_nat (fieldOf CHR ''a'' c2))
         OR push_bit 5 (word_of_nat (fieldOf CHR ''a'' c3)) OR word_of_nat (fieldOf CHR ''a'' c4)"
    using assms(1) unfolding w_def packScript_def scriptOK_def by (simp only: ord32_diff)
  show "drop_bit 15 w = word_of_nat (fieldOf CHR ''A'' c1)"
    and "drop_bit 10 w AND FIVE_BITS = word_of_nat (fieldOf CHR ''a'' c2)"
    and "drop_bit 5 w AND FIVE_BITS = word_of_nat (fieldOf CHR ''a'' c3)"
    and "w AND FIVE_BITS = word_of_nat (fieldOf CHR ''a'' c4)"
    unfolding w using lt by (rule_tac [!] pack4_fields) simp_all
qed

lemma unpackScript_packScript:
  assumes "scriptOK c1 c2 c3 c4"
  shows "unpackScript (packScript c1 c2 c3 c4) =
         push_bit 24 (ord32 c1) OR push_bit 16 (ord32 c2) OR push_bit 8 (ord32 c3) OR ord32 c4"
  using assms unfolding unpackScript_def Let_def packScript_fields [OF assms]
  by (simp only: ord32_field scriptOK_def)

lemma packScript_ne_sentinel:
  assumes "scriptOK c1 c2 c3 c4"
  shows "packScript c1 c2 c3 c4 \<noteq> NO_SCRIPT"
proof
  assume "packScript c1 c2 c3 c4 = NO_SCRIPT"
  with packScript_fields(4) [OF assms] have "(word_of_nat (fieldOf CHR ''a'' c4) :: 32 word) = 0x1f"
    by (simp add: FIVE_BITS_def NO_SCRIPT_def)
  moreover have "fieldOf CHR ''a'' c4 < 26" using assms by (simp add: scriptOK_def fieldOf_lt)
  ultimately show False using word_small_ne31 [where ?'a = 32] by simp
qed

subsection \<open>Valid codes come back from their packed form\<close>

lemma isLowercase_inField: "isLowercase c = inField CHR ''a'' c"
  by (auto simp: isLowercase_def inField_def)

lemma isUppercase_inField: "isUppercase c = inField CHR ''A'' c"
  by (auto simp: isUppercase_def inField_def)

lemma isDigit_inField: "isDigit c \<Longrightarrow> inField CHR ''0'' c"
  by (auto simp: isDigit_def inField_def)

lemma list2: "length s = 2 \<Longrightarrow> s = [s ! 0, s ! 1]"
  by (cases s; cases "tl s") auto

lemma list3: "length s = 3 \<Longrightarrow> s = [s ! 0, s ! 1, s ! 2]"
  by (cases s; cases "tl s"; cases "tl (tl s)") auto

lemma list4: "length s = 4 \<Longrightarrow> s = [s ! 0, s ! 1, s ! 2, s ! 3]"
  by (cases s; cases "tl s"; cases "tl (tl s)"; cases "tl (tl (tl s))") auto

lemma language_roundtrip:
  assumes "isValidLanguageCode s"
  shows "unpackLanguage (packLanguage s) = s" and "packLanguage s \<noteq> NO_LANGUAGE"
proof -
  from assms consider (two) "length s = 2" | (three) "length s = 3"
    by (auto simp: isValidLanguageCode_def split: if_splits)
  hence "unpackLanguage (packLanguage s) = s \<and> packLanguage s \<noteq> NO_LANGUAGE"
  proof cases
    case two
    from assms two have f: "inField CHR ''a'' (s ! 0)" "inField CHR ''a'' (s ! 1)"
      by (auto simp: isValidLanguageCode_def isLowercase_inField split: if_splits)
    from unpack_pack2 [OF f] pack2_ne_sentinel [OF f] list2 [OF two]
    show ?thesis
      by (metis packLanguage_def unpackLanguage_def NO_LANGUAGE_def)
  next
    case three
    from assms three have f: "inField CHR ''a'' (s ! 0)" "inField CHR ''a'' (s ! 1)" "inField CHR ''a'' (s ! 2)"
      by (auto simp: isValidLanguageCode_def isLowercase_inField split: if_splits)
    from unpack_pack3 [OF f] pack3_ne_sentinel [OF f] list3 [OF three]
    show ?thesis
      by (metis packLanguage_def unpackLanguage_def NO_LANGUAGE_def)
  qed
  thus "unpackLanguage (packLanguage s) = s" and "packLanguage s \<noteq> NO_LANGUAGE" by simp_all
qed

lemma region_roundtrip:
  assumes "isValidRegionCode s"
  shows "unpackRegion (packRegion s) = s" and "packRegion s \<noteq> NO_REGION"
proof -
  from assms consider (two) "length s = 2" | (three) "length s = 3"
    by (auto simp: isValidRegionCode_def)
  hence "unpackRegion (packRegion s) = s \<and> packRegion s \<noteq> NO_REGION"
  proof cases
    case two
    from assms two have f: "inField CHR ''A'' (s ! 0)" "inField CHR ''A'' (s ! 1)"
      by (auto simp: isValidRegionCode_def isUppercase_inField)
    from unpack_pack2 [OF f] pack2_ne_sentinel [OF f] list2 [OF two]
    show ?thesis
      by (metis packRegion_def unpackRegion_def NO_REGION_def)
  next
    case three
    from assms three have f: "inField CHR ''0'' (s ! 0)" "inField CHR ''0'' (s ! 1)" "inField CHR ''0'' (s ! 2)"
      by (auto simp: isValidRegionCode_def isDigit_inField)
    from unpack_pack3 [OF f] pack3_ne_sentinel [OF f] list3 [OF three]
    show ?thesis
      by (metis packRegion_def unpackRegion_def NO_REGION_def)
  qed
  thus "unpackRegion (packRegion s) = s" and "packRegion s \<noteq> NO_REGION" by simp_all
qed

lemma script_roundtrip:
  assumes "isValidScriptCode s"
  defines "r \<equiv> unpackScript (packScript (s ! 0) (s ! 1) (s ! 2) (s ! 3))"
  shows "[byteOf (drop_bit 24 r), byteOf (drop_bit 16 r), byteOf (drop_bit 8 r), byteOf r] = s"
    and "packScript (s ! 0) (s ! 1) (s ! 2) (s ! 3) \<noteq> NO_SCRIPT"
proof -
  from assms(1) have ok: "scriptOK (s ! 0) (s ! 1) (s ! 2) (s ! 3)" and len: "length s = 4"
    by (simp_all add: isValidScriptCode_def scriptOK_def isLowercase_inField isUppercase_inField)
  show "packScript (s ! 0) (s ! 1) (s ! 2) (s ! 3) \<noteq> NO_SCRIPT"
    using ok by (rule packScript_ne_sentinel)
  have "[byteOf (drop_bit 24 r), byteOf (drop_bit 16 r), byteOf (drop_bit 8 r), byteOf r]
        = [s ! 0, s ! 1, s ! 2, s ! 3]"
    unfolding r_def unpackScript_packScript [OF ok] bytes4 by (rule refl)
  with list4 [OF len] show "[byteOf (drop_bit 24 r), byteOf (drop_bit 16 r), byteOf (drop_bit 8 r), byteOf r] = s"
    by simp
qed

subsection \<open>The tokens of a rendered tag\<close>

lemma inField_no_dash: "inField b c \<Longrightarrow> (45::nat) < of_char b \<Longrightarrow> c \<noteq> CHR ''-''"
  by (auto simp: inField_def)

lemma language_no_dash: "isValidLanguageCode s \<Longrightarrow> CHR ''-'' \<notin> set s"
proof -
  assume a: "isValidLanguageCode s"
  then consider (two) "length s = 2" | (three) "length s = 3"
    by (auto simp: isValidLanguageCode_def split: if_splits)
  thus ?thesis
  proof cases
    case two
    from a two have "s ! 0 \<noteq> CHR ''-''" "s ! 1 \<noteq> CHR ''-''"
      by (auto simp: isValidLanguageCode_def isLowercase_def split: if_splits)
    with list2 [OF two] show ?thesis by (metis empty_iff empty_set set_ConsD)
  next
    case three
    from a three have "s ! 0 \<noteq> CHR ''-''" "s ! 1 \<noteq> CHR ''-''" "s ! 2 \<noteq> CHR ''-''"
      by (auto simp: isValidLanguageCode_def isLowercase_def split: if_splits)
    with list3 [OF three] show ?thesis by (metis empty_iff empty_set set_ConsD)
  qed
qed

lemma region_no_dash: "isValidRegionCode s \<Longrightarrow> CHR ''-'' \<notin> set s"
proof -
  assume a: "isValidRegionCode s"
  then consider (two) "length s = 2" | (three) "length s = 3"
    by (auto simp: isValidRegionCode_def)
  thus ?thesis
  proof cases
    case two
    from a two have "s ! 0 \<noteq> CHR ''-''" "s ! 1 \<noteq> CHR ''-''"
      by (auto simp: isValidRegionCode_def isUppercase_def)
    with list2 [OF two] show ?thesis by (metis empty_iff empty_set set_ConsD)
  next
    case three
    from a three have "s ! 0 \<noteq> CHR ''-''" "s ! 1 \<noteq> CHR ''-''" "s ! 2 \<noteq> CHR ''-''"
      by (auto simp: isValidRegionCode_def isDigit_def)
    with list3 [OF three] show ?thesis by (metis empty_iff empty_set set_ConsD)
  qed
qed

lemma script_no_dash: "isValidScriptCode s \<Longrightarrow> CHR ''-'' \<notin> set s"
proof -
  assume a: "isValidScriptCode s"
  hence len: "length s = 4" by (simp add: isValidScriptCode_def)
  from a have "s ! 0 \<noteq> CHR ''-''" "s ! 1 \<noteq> CHR ''-''" "s ! 2 \<noteq> CHR ''-''" "s ! 3 \<noteq> CHR ''-''"
    by (auto simp: isValidScriptCode_def isUppercase_def isLowercase_def)
  with list4 [OF len] show ?thesis by (metis empty_iff empty_set set_ConsD)
qed

lemma splitOn_single: "d \<notin> set a \<Longrightarrow> splitOn d a = [a]"
  by (induction a) auto

lemma splitOn_append: "d \<notin> set a \<Longrightarrow> splitOn d (a @ d # b) = a # splitOn d b"
  by (induction a) auto

lemma region_not_script: "isValidRegionCode s \<Longrightarrow> \<not> isValidScriptCode s"
  by (auto simp: isValidRegionCode_def isValidScriptCode_def)

lemma script_not_region: "isValidScriptCode s \<Longrightarrow> \<not> isValidRegionCode s"
  by (auto simp: isValidRegionCode_def isValidScriptCode_def)

lemma const_tokens:
  "\<not> isValidScriptCode ''1901''" "\<not> isValidScriptCode ''1996''" "\<not> isValidScriptCode ''u''"
  "\<not> isValidRegionCode ''1901''" "\<not> isValidRegionCode ''1996''" "\<not> isValidRegionCode ''u''"
  by (simp_all add: isValidScriptCode_def isValidRegionCode_def isUppercase_def)

lemma splitOn_opt:
  assumes "CHR ''-'' \<notin> set a" "\<And>s. t = Some s \<Longrightarrow> CHR ''-'' \<notin> set s"
  shows "splitOn CHR ''-'' (a @ optPart ''-'' t @ b) = (if t = None then splitOn CHR ''-'' (a @ b)
      else a # splitOn CHR ''-'' (the t @ b))"
  using assms by (cases t) (simp_all add: optPart_def splitOn_append)

lemma emoji_split:
  assumes "CHR ''-'' \<notin> set a" "em = None \<or> em = Some ''emoji'' \<or> em = Some ''text'' \<or> em = Some ''default''"
  shows "splitOn CHR ''-'' (a @ optPart ''-u-em-'' em) = a # (case em of None \<Rightarrow> [] | Some e \<Rightarrow> [''u'', ''em'', e])"
  using assms by (auto simp: optPart_def splitOn_append splitOn_single)

lemma split_render:
  assumes "validTag p"
  shows "splitOn CHR ''-'' (renderTag p) = tagTokens p"
proof -
  have l: "CHR ''-'' \<notin> set (langPart p)" using assms by (simp add: validTag_def language_no_dash)
  have s: "\<And>s. scriptPart p = Some s \<Longrightarrow> CHR ''-'' \<notin> set s"
    using assms by (auto simp: validTag_def script_no_dash)
  have r: "\<And>s. regionPart p = Some s \<Longrightarrow> CHR ''-'' \<notin> set s"
    using assms by (auto simp: validTag_def region_no_dash)
  have v: "\<And>s. variantPart p = Some s \<Longrightarrow> CHR ''-'' \<notin> set s"
    using assms by (auto simp: validTag_def)
  have e: "emojiPart p = None \<or> emojiPart p = Some ''emoji'' \<or> emojiPart p = Some ''text'' \<or> emojiPart p = Some ''default''"
    using assms by (auto simp: validTag_def split: option.splits)
  show ?thesis
  proof (cases "scriptPart p"; cases "regionPart p"; cases "variantPart p")
  qed (use l s r v in \<open>simp_all add: renderTag_def tagTokens_def optTok_def optPart_def splitOn_append emoji_split [OF _ e, unfolded optPart_def]
       emoji_split [OF _ e, of "[]", unfolded optPart_def, simplified] del: splitOn.simps\<close>)
qed

subsection \<open>The fields that the parser sets\<close>

lemma finalize_fields [simp]:
  "mLanguage (finalize l) = mLanguage l" "mScript (finalize l) = mScript l"
  "mRegion (finalize l) = mRegion l" "mVariant (finalize l) = mVariant l"
  by (simp_all add: finalize_def)

lemma parseVariant_fields [simp]:
  "mLanguage (parseVariant input lang l tok it) = mLanguage l"
  "mScript (parseVariant input lang l tok it) = mScript l"
  "mRegion (parseVariant input lang l tok it) = mRegion l"
  "mVariant (parseVariant input lang l tok it) =
     (if lang = ''de'' \<and> tok = ''1901'' then GERMAN_1901_ORTHOGRAPHY
      else if lang = ''de'' \<and> tok = ''1996'' then GERMAN_1996_ORTHOGRAPHY else mVariant l)"
  by (simp_all add: parseVariant_def Let_def)

lemma parseRegion_fields [simp]:
  "mLanguage (parseRegion input lang l tok it) = mLanguage l"
  "mScript (parseRegion input lang l tok it) = mScript l"
  "mRegion (parseRegion input lang l tok it) = (if isValidRegionCode tok then packRegion tok else mRegion l)"
  "mVariant (parseRegion input lang l tok it) =
     (if isValidRegionCode tok then
        (if it = [] then mVariant l
         else mVariant (parseVariant input lang l (hd it) (tl it)))
      else mVariant (parseVariant input lang l tok it))"
  by (simp_all add: parseRegion_def Let_def)

lemma parseScript_fields [simp]:
  "mLanguage (parseScript input lang l tok it) = mLanguage l"
  "mScript (parseScript input lang l tok it) =
     (if isValidScriptCode tok then packScript (tok ! 0) (tok ! 1) (tok ! 2) (tok ! 3) else mScript l)"
  "mRegion (parseScript input lang l tok it) =
     (if isValidScriptCode tok then
        (if it = [] then mRegion l else mRegion (parseRegion input lang l (hd it) (tl it)))
      else mRegion (parseRegion input lang l tok it))"
  "mVariant (parseScript input lang l tok it) =
     (if isValidScriptCode tok then
        (if it = [] then mVariant l else mVariant (parseRegion input lang l (hd it) (tl it)))
      else mVariant (parseRegion input lang l tok it))"
  by (simp_all add: parseScript_def Let_def)

lemma parse_fields:
  assumes "validTag p"
  shows "mLanguage (parseFontLanguage (renderTag p)) = packLanguage (langPart p)"
    and "mScript (parseFontLanguage (renderTag p)) =
          (case scriptPart p of None \<Rightarrow> NO_SCRIPT | Some s \<Rightarrow> packScript (s ! 0) (s ! 1) (s ! 2) (s ! 3))"
    and "mRegion (parseFontLanguage (renderTag p)) =
          (case regionPart p of None \<Rightarrow> NO_REGION | Some r \<Rightarrow> packRegion r)"
    and "mVariant (parseFontLanguage (renderTag p)) = variantOfPart (variantPart p)"
proof -
  have e: "emojiPart p = None \<or> emojiPart p = Some ''emoji'' \<or> emojiPart p = Some ''text'' \<or> emojiPart p = Some ''default''"
    using assms by (auto simp: validTag_def split: option.splits)
  have l: "isValidLanguageCode (langPart p)" using assms by (simp add: validTag_def)
  have s: "\<And>s. scriptPart p = Some s \<Longrightarrow> isValidScriptCode s \<and> \<not> isValidRegionCode s"
    using assms by (auto simp: validTag_def script_not_region)
  have r: "\<And>s. regionPart p = Some s \<Longrightarrow> isValidRegionCode s \<and> \<not> isValidScriptCode s"
    using assms by (auto simp: validTag_def region_not_script)
  have v: "\<And>s. variantPart p = Some s \<Longrightarrow> langPart p = ''de'' \<and> (s = ''1901'' \<or> s = ''1996'')"
    using assms by (auto simp: validTag_def)
  note simps = parseFontLanguage_def split_render [OF assms] tagTokens_def optTok_def Let_def
      defaultFontLanguage_def const_tokens variantOfPart_def
  show "mLanguage (parseFontLanguage (renderTag p)) = packLanguage (langPart p)"
    using l by (simp add: simps)
  show "mScript (parseFontLanguage (renderTag p)) =
          (case scriptPart p of None \<Rightarrow> NO_SCRIPT | Some s \<Rightarrow> packScript (s ! 0) (s ! 1) (s ! 2) (s ! 3))"
    by (cases "scriptPart p"; cases "regionPart p"; cases "variantPart p"; cases "emojiPart p")
       (use l s r v e in \<open>auto simp add: simps\<close>)
  show "mRegion (parseFontLanguage (renderTag p)) =
          (case regionPart p of None \<Rightarrow> NO_REGION | Some r \<Rightarrow> packRegion r)"
    by (cases "scriptPart p"; cases "regionPart p"; cases "variantPart p"; cases "emojiPart p")
       (use l s r v e in \<open>auto simp add: simps\<close>)
  show "mVariant (parseFontLanguage (renderTag p)) = variantOfPart (variantPart p)"
    by (cases "scriptPart p"; cases "regionPart p"; cases "variantPart p"; cases "emojiPart p")
       (use l s r v e in \<open>auto simp add: simps\<close>)
qed

subsection \<open>The round trip\<close>

lemma getString_parse_render:
  assumes "validTag p"
  shows "getString (parseFontLanguage (renderTag p)) = canonicalTag p"
proof -
  have l: "isValidLanguageCode (langPart p)" using assms by (simp add: validTag_def)
  have s: "\<And>s. scriptPart p = Some s \<Longrightarrow> isValidScriptCode s"
    using assms by (auto simp: validTag_def)
  have r: "\<And>s. regionPart p = Some s \<Longrightarrow> isValidRegionCode s"
    using assms by (auto simp: validTag_def)
  have v: "\<And>s. variantPart p = Some s \<Longrightarrow> (s = ''1901'' \<or> s = ''1996'')"
    using assms by (auto simp: validTag_def)
  show ?thesis
    unfolding getString_def Let_def parse_fields [OF assms]
    by (cases "scriptPart p"; cases "regionPart p"; cases "variantPart p")
       (use l s r v in \<open>auto simp add: canonicalTag_def renderTag_def optPart_def variantOfPart_def
          language_roundtrip region_roundtrip script_roundtrip [unfolded One_nat_def]\<close>)
qed

lemma getString_invalid_language:
  "\<not> isValidLanguageCode (hd (splitOn CHR ''-'' input)) \<Longrightarrow> getString (parseFontLanguage input) = ''und''"
  by (simp add: parseFontLanguage_def Let_def getString_def defaultFontLanguage_def)

lemma parse_de_1996:
  "mVariant (parseFontLanguage ''de-1996'') = GERMAN_1996_ORTHOGRAPHY"
  "getString (parseFontLanguage ''de-1996'') = ''de-1996''"
  by code_simp+

text \<open>
  Claim C3, as amended. For every string of the subset (language, then optionally a
  script, a region, a variant for the language \<^verbatim>\<open>de\<close>, and an emoji extension, all with
  valid tokens), parsing the string and calling \<^verbatim>\<open>getString\<close> returns the string without
  its \<^verbatim>\<open>-u-em-\<close> extension: language, script, region and variant are written back
  letter for letter, the emoji style is never written. Parsing \<^verbatim>\<open>de-1996\<close> sets the
  German 1996 variant and gives back \<^verbatim>\<open>de-1996\<close>; an input whose first token is not a
  valid language code gives \<^verbatim>\<open>und\<close>.
\<close>

theorem getString_roundtrip:
  "(validTag p \<longrightarrow> getString (parseFontLanguage (renderTag p)) = canonicalTag p) \<and>
   mVariant (parseFontLanguage ''de-1996'') = GERMAN_1996_ORTHOGRAPHY \<and>
   getString (parseFontLanguage ''de-1996'') = ''de-1996'' \<and>
   (\<not> isValidLanguageCode (hd (splitOn CHR ''-'' input)) \<longrightarrow>
      getString (parseFontLanguage input) = ''und'')"
  using getString_parse_render [of p] getString_invalid_language [of input] parse_de_1996
  by blast

lemma tagDeFull_facts:
  "validTag tagDeFull" "renderTag tagDeFull = ''de-Latn-DE-1996-u-em-emoji''"
  "canonicalTag tagDeFull = ''de-Latn-DE-1996''"
  by (simp_all add: tagDeFull_def validTag_def renderTag_def canonicalTag_def optPart_def
      isValidLanguageCode_def isValidScriptCode_def isValidRegionCode_def
      isLowercase_def isUppercase_def isDigit_def)

lemma en_US_underscore: "\<not> isValidLanguageCode (hd (splitOn CHR ''-'' ''en_US''))"
  by (simp add: isValidLanguageCode_def)

theorem getString_roundtrip_witness:
  "validTag tagDeFull \<and>
   getString (parseFontLanguage ''de-Latn-DE-1996-u-em-emoji'') = ''de-Latn-DE-1996'' \<and>
   \<not> isValidLanguageCode (hd (splitOn CHR ''-'' ''en_US'')) \<and>
   getString (parseFontLanguage ''en_US'') = ''und''"
  using getString_roundtrip [of tagDeFull "''en_US''"] tagDeFull_facts en_US_underscore
  by simp

text \<open>
  The claim as it was stated fails on a tag that carries an emoji extension: the tag
  \<^verbatim>\<open>en-u-em-emoji\<close> is in the subset, its emoji style is parsed, and \<^verbatim>\<open>getString\<close>
  answers \<^verbatim>\<open>en\<close>.
\<close>

theorem getString_roundtrip_counterexample:
  "validTag tagEnEmojiParts \<and> renderTag tagEnEmojiParts = ''en-u-em-emoji'' \<and>
   mEmojiStyle (parseFontLanguage ''en-u-em-emoji'') = EMSTYLE_EMOJI \<and>
   getString (parseFontLanguage ''en-u-em-emoji'') = ''en'' \<and>
   getString (parseFontLanguage (renderTag tagEnEmojiParts)) \<noteq> renderTag tagEnEmojiParts"
proof -
  have a: "validTag tagEnEmojiParts" "renderTag tagEnEmojiParts = ''en-u-em-emoji''"
    by (simp_all add: tagEnEmojiParts_def validTag_def renderTag_def optPart_def
        isValidLanguageCode_def isLowercase_def)
  have b: "mEmojiStyle (parseFontLanguage ''en-u-em-emoji'') = EMSTYLE_EMOJI"
    by code_simp
  have c: "getString (parseFontLanguage ''en-u-em-emoji'') = ''en''"
    by code_simp
  show ?thesis using a b c by simp
qed

section \<open>Properties of the optimizer\<close>

subsection \<open>The score of one line\<close>



subsection \<open>The width of the line under construction\<close>

lemma refreshWidth_width:
  "width st = getAt lw (lineNumberLast st) \<Longrightarrow>
   lineNumberLast (refreshWidth lw ci n st) = n \<and> width (refreshWidth lw ci n st) = getAt lw n"
  by (simp add: refreshWidth_def Let_def)

lemma innerStep_width:
  assumes "width st = getAt lw (lineNumberLast st)"
  shows "lineNumberLast (innerStep lw strategy justified maxShrink cands bd atEnd i st j) = lineNumber (bd ! j) \<and>
         width (innerStep lw strategy justified maxShrink cands bd atEnd i st j) = getAt lw (lineNumber (bd ! j))"
  using refreshWidth_width [OF assms, of "cands ! i" "lineNumber (bd ! j)"]
  by (simp add: innerStep_def Let_def)

text \<open>
  Claim C1, as amended. When the line number of \<open>j\<close> differs from the last line number
  seen, the last line number becomes that of \<open>j\<close> and \<open>width\<close> is
  \<open>lineWidth.at(lineNumber[j])\<close> afterwards; \<open>bestHope\<close> is reset to 0 when that width
  differs from the width in use, and \<open>bestHope\<close> and \<open>leftEdge\<close> are kept when it is the
  same width; \<open>active\<close>, \<open>best\<close> and \<open>bestPrev\<close> are not touched. Through the whole inner
  loop \<open>width\<close> is the width of the line of the candidate \<open>j\<close> under consideration.
\<close>

theorem refreshWidth_amended:
  "(lineNumber' \<noteq> lineNumberLast st \<longrightarrow>
     (let st' = refreshWidth lw candI lineNumber' st in
        lineNumberLast st' = lineNumber' \<and> width st' = getAt lw lineNumber' \<and>
        (getAt lw lineNumber' \<noteq> width st \<longrightarrow> bestHope st' = 0) \<and>
        (getAt lw lineNumber' = width st \<longrightarrow> bestHope st' = bestHope st \<and> leftEdge st' = leftEdge st) \<and>
        active st' = active st \<and> best st' = best st \<and> bestPrev st' = bestPrev st)) \<and>
   (width st = getAt lw (lineNumberLast st) \<longrightarrow>
     (let st' = innerStep lw strategy justified maxShrink cands bd atEnd i st j in
        lineNumberLast st' = lineNumber (bd ! j) \<and> width st' = getAt lw (lineNumber (bd ! j))))"
  using innerStep_width [of st lw strategy justified maxShrink cands bd atEnd i j]
  by (simp add: refreshWidth_def Let_def)

theorem refreshWidth_amended_witness:
  "1 \<noteq> lineNumberLast innerState0 \<and>
   width (refreshWidth lineWidth3 (candidates context3 ! 2) 1 innerState0) = 50 \<and>
   bestHope (refreshWidth lineWidth3 (candidates context3 ! 2) 1 innerState0) = 0 \<and>
   width innerState0 = getAt lineWidth3 (lineNumberLast innerState0) \<and>
   width (innerStep lineWidth3 HighQuality False 0 (candidates context3) breaksData2 False 2 innerState0 1) = 50"
  using refreshWidth_amended [of 1 innerState0 lineWidth3 "candidates context3 ! 2"
          HighQuality False 0 "candidates context3" breaksData2 False 2 1]
  by (simp add: innerState0_def lineWidth3_def breaksData2_def Let_def)

text \<open>
  The claim as it was stated fails in two ways. Where the new line has the width already
  in use, \<open>bestHope\<close> is not reset. Where the width changes, \<open>leftEdge\<close> is recomputed
  from the width of the previous line, not from the refreshed one.
\<close>

theorem refreshWidth_counterexample:
  "1 \<noteq> lineNumberLast innerState0 \<and>
   bestHope (refreshWidth lineWidthConst (candidates context3 ! 2) 1 innerState0) = 25 \<and>
   getAt lineWidth3 1 = 50 \<and>
   leftEdge (refreshWidth lineWidth3 (candidates context3 ! 2) 1 innerState0)
     = postBreak (candidates context3 ! 2) - 100"
  by (simp add: refreshWidth_def innerState0_def lineWidthConst_def lineWidth3_def context3_def
      mkCandidate_def Let_def)

text \<open>
  The effect on the table: the line from candidate 1 to candidate 2 is 60 wide and lies on
  line 1, which is 50 wide, yet it is scored as a line with 40 to spare (1600), and the
  last candidate is reached from candidate 1 by a line of width 120.
\<close>

lemma computeBreaksData_context3:
  "computeBreaksData context3 lineWidth3 HighQuality False =
     [\<lparr> score = 0, prev = 0, lineNumber = 0 \<rparr>,
      \<lparr> score = 1600, prev = 0, lineNumber = 1 \<rparr>,
      \<lparr> score = 3200, prev = 1, lineNumber = 2 \<rparr>,
      \<lparr> score = 1000000001600, prev = 1, lineNumber = 2 \<rparr>]"
  by code_simp

section \<open>Properties of the candidate builder\<close>

subsection \<open>The merge of hyphenation and desperate breaks\<close>

lemma appendWithMerging_candidates:
  "appendWithMerging hs ds proc hp rtl out =
     out\<lparr>candidates := candidates out @ map (mergedCandidate proc hp rtl) (mergeOrder hs ds)\<rparr>"
  by (induction hs ds arbitrary: out rule: mergeOrder.induct)
     (simp_all add: pushDesperate_def pushHyphenation_def emplace_back_def mergedCandidate_def
        desperateCandidate_def hyphenationCandidate_def)

lemma mergeOrder_desperates: "[d. Inr d \<leftarrow> mergeOrder hs ds] = ds"
  by (induction hs ds rule: mergeOrder.induct) simp_all

lemma mergeOrder_hyphens: "[h. Inl h \<leftarrow> mergeOrder hs ds] = hs"
  by (induction hs ds rule: mergeOrder.induct) simp_all

text \<open>
  Claim C10. \<^verbatim>\<open>pushDesperate\<close> appends one candidate whose \<open>preBreak\<close> and \<open>postBreak\<close> are
  equal, whose two space counts are equal, whose penalty is \<open>SCORE_DESPERATE\<close> (which is
  \<open>10 ^ 10\<close>) and whose hyphen type is \<open>BREAK_AND_DONT_INSERT_HYPHEN\<close>. The candidates
  that \<^verbatim>\<open>appendWithMerging\<close> appends are the images of the merged breaks, every
  desperate break is among them, and the image of a desperate break has that shape.
\<close>

theorem desperate_candidates_shape:
  "candidates (pushDesperate off s spaceCount rtl out) =
     candidates out @ [mkCandidate off s s SCORE_DESPERATE spaceCount spaceCount BREAK_AND_DONT_INSERT_HYPHEN rtl] \<and>
   isDesperateShaped (mkCandidate off s s SCORE_DESPERATE spaceCount spaceCount BREAK_AND_DONT_INSERT_HYPHEN rtl) \<and>
   SCORE_DESPERATE = 10 ^ 10 \<and>
   candidates (appendWithMerging hs ds proc hp rtl out) =
     candidates out @ map (mergedCandidate proc hp rtl) (mergeOrder hs ds) \<and>
   [d. Inr d \<leftarrow> mergeOrder hs ds] = ds \<and>
   isDesperateShaped (mergedCandidate proc hp rtl (Inr d))"
  by (simp add: appendWithMerging_candidates mergeOrder_desperates isDesperateShaped_def
      mergedCandidate_def desperateCandidate_def mkCandidate_def pushDesperate_def emplace_back_def
      SCORE_DESPERATE_def)

subsection \<open>The desperate points of a range\<close>

lemma sumRange_Suc: "a \<le> b \<Longrightarrow> sumRange ws a (Suc b) = sumRange ws a b + ws ! b"
  by (simp add: sumRange_def)

lemma desperateLoop_upt:
  "s < a \<Longrightarrow> acc = sumRange ws s a \<Longrightarrow>
   desperateLoop ws [a ..< b] acc =
     map (\<lambda>i. \<lparr> dbOffset = i, sumOfChars = sumRange ws s i \<rparr>) (filter (\<lambda>i. ws ! i \<noteq> 0) [a ..< b])"
proof (induction "b - a" arbitrary: a acc)
  case 0
  then show ?case by simp
next
  case (Suc n)
  hence ab: "a < b" and n: "n = b - Suc a" by linarith+
  have u: "[a ..< b] = a # [Suc a ..< b]" using ab by (simp add: upt_conv_Cons)
  show ?case
  proof (cases "ws ! a = 0")
    case True
    have "sumRange ws s (Suc a) = acc" using Suc.prems True by (simp add: sumRange_Suc)
    with Suc.hyps(1) [OF n, of acc] Suc.prems(1) True show ?thesis
      by (simp add: u)
  next
    case False
    have "sumRange ws s (Suc a) = acc + ws ! a" using Suc.prems by (simp add: sumRange_Suc)
    with Suc.hyps(1) [OF n, of "acc + ws ! a"] Suc.prems False show ?thesis
      by (simp add: u Let_def)
  qed
qed

lemma populateDesperatePoints_eq:
  "populateDesperatePoints measured r = interiorPoints (widths measured) r"
proof -
  have "sumRange (widths measured) (getStart r) (getStart r + 1) = widths measured ! getStart r"
    by (simp add: sumRange_def)
  from desperateLoop_upt [OF _ this [symmetric], of "getEnd r"] show ?thesis
    by (simp add: populateDesperatePoints_def interiorPoints_def)
qed

lemma desperateBreaksAt_exact:
  "desperateBreaksAt measured minLineWidth proc =
     (if widthFromLastWordBreak proc > minLineWidth
      then interiorPoints (widths measured) (contextRange proc) else [])"
  by (simp add: desperateBreaksAt_def populateDesperatePoints_eq)

subsection \<open>The range check, and the assertion on TAB\<close>


lemma error_unique: "(e :: error) = e'"
  by (cases e; cases e') simp

lemma feedChar_Inl: "(feedChar sv idx c w proc = Inl e) = (c = CHAR_TAB)"
  by (cases e) (simp add: feedChar_def Let_def split: prod.splits)

lemma processChar_Inl:
  "(processChar sv textBuf measured m frequency run hp i st = Inl e) = (textBuf ! i = CHAR_TAB)"
proof (cases "feedChar sv i (textBuf ! i) (widths measured ! i) (fst st)")
  case (Inl e')
  with feedChar_Inl [of sv i "textBuf ! i" "widths measured ! i" "fst st" e'] show ?thesis
    by (simp add: processChar_def error_unique [of e' e])
next
  case (Inr p)
  with feedChar_Inl [of sv i "textBuf ! i" "widths measured ! i" "fst st" e] show ?thesis
    by (simp add: processChar_def)
qed

lemma processChars_Inl:
  "(processChars sv textBuf measured m frequency run hp is st = Inl e) = (\<exists>i\<in>set is. textBuf ! i = CHAR_TAB)"
proof (induction "is" arbitrary: st)
  case Nil
  then show ?case by simp
next
  case (Cons i rest)
  show ?case
  proof (cases "processChar sv textBuf measured m frequency run hp i st")
    case (Inl e')
    with processChar_Inl [of sv textBuf measured m frequency run hp i st e'] show ?thesis
      by (cases e; cases e') simp
  next
    case (Inr st1)
    hence "textBuf ! i \<noteq> CHAR_TAB"
      using processChar_Inl [of sv textBuf measured m frequency run hp i st e] by auto
    with Cons.IH [of st1] Inr show ?thesis by simp
  qed
qed

lemma processRun_Inl:
  "(processRun sv textBuf measured lineWidth frequency isJustified run st = Inl e) =
   (\<exists>i\<in>fedOffsets [run]. textBuf ! i = CHAR_TAB)"
  by (simp add: processRun_def Let_def processChars_Inl fedOffsets_def)

lemma processRuns_Inl:
  "(processRuns sv textBuf measured lineWidth frequency isJustified rs st = Inl e) =
   (\<exists>i\<in>fedOffsets rs. textBuf ! i = CHAR_TAB)"
proof (induction rs arbitrary: st)
  case Nil
  then show ?case by (simp add: fedOffsets_def)
next
  case (Cons run rest)
  show ?case
  proof (cases "processRun sv textBuf measured lineWidth frequency isJustified run st")
    case (Inl e')
    with processRun_Inl [of sv textBuf measured lineWidth frequency isJustified run st e'] show ?thesis
      by (cases e; cases e') (auto simp: fedOffsets_def)
  next
    case (Inr st1)
    hence "\<not> (\<exists>i\<in>fedOffsets [run]. textBuf ! i = CHAR_TAB)"
      using processRun_Inl [of sv textBuf measured lineWidth frequency isJustified run st e] by auto
    with Cons.IH [of st1] Inr show ?thesis by (auto simp: fedOffsets_def)
  qed
qed

lemma tab_lemma:
  "(populateCandidates sv textBuf measured lineWidth frequency isJustified = Inl TabNotSupported)
     = (\<exists>i\<in>fedOffsets (runs measured). textBuf ! i = CHAR_TAB) \<and>
   ((\<forall>i\<in>fedOffsets (runs measured). textBuf ! i \<noteq> CHAR_TAB) \<longrightarrow>
      (\<exists>context. populateCandidates sv textBuf measured lineWidth frequency isJustified = Inr context))"
proof -
  let ?r = "processRuns sv textBuf measured lineWidth frequency isJustified (runs measured)
        (newCharProcessor sv textBuf, newOptimizeContext)"
  note l = processRuns_Inl [of sv textBuf measured lineWidth frequency isJustified "runs measured"
        "(newCharProcessor sv textBuf, newOptimizeContext)" TabNotSupported]
  show ?thesis
  proof (cases ?r)
    case (Inl e)
    hence "?r = Inl TabNotSupported" by (simp add: error_unique [of e TabNotSupported])
    with l show ?thesis by (simp add: populateCandidates_def)
  next
    case (Inr st)
    with l show ?thesis by (simp add: populateCandidates_def)
  qed
qed

subsection \<open>Offsets within one step\<close>

lemma offset_mergedCandidate [simp]: "offset (mergedCandidate proc hp rtl x) = mergedOffset x"
  by (cases x) (simp_all add: mergedCandidate_def mergedOffset_def hyphenationCandidate_def
      desperateCandidate_def mkCandidate_def)







lemma wordBreakStep_candidates:
  "wordBreakStep sv textBuf measured m freq run hp n proc result =
     result\<lparr>candidates := candidates result @ stepCandidates sv textBuf measured m freq run hp n proc\<rparr>"
  by (simp add: wordBreakStep_def stepCandidates_def appendWithMerging_candidates Let_def
      pushWordBreak_def emplace_back_def wordBreakCandidate_def)




subsection \<open>Offsets through the paragraph\<close>








subsection \<open>Widths through the paragraph\<close>















section \<open>Examples and the claims about the candidate builder\<close>





subsection \<open>Desperate candidates\<close>

theorem desperate_candidates_shape_witness:
  "candidates (pushDesperate 3 25 0 False newOptimizeContext) =
     [mkCandidate 0 0 0 0 0 0 DONT_BREAK False,
      mkCandidate 3 25 25 SCORE_DESPERATE 0 0 BREAK_AND_DONT_INSERT_HYPHEN False] \<and>
   isDesperateShaped (mkCandidate 3 25 25 SCORE_DESPERATE 0 0 BREAK_AND_DONT_INSERT_HYPHEN False) \<and>
   isDesperateShaped (mergedCandidate procAtEnd 0 False (Inr \<lparr> dbOffset = 3, sumOfChars = 25 \<rparr>))"
  using desperate_candidates_shape [of 3 25 0 False newOptimizeContext "[]"
          "[\<lparr> dbOffset = 3, sumOfChars = 25 \<rparr>]" procAtEnd 0 "\<lparr> dbOffset = 3, sumOfChars = 25 \<rparr>"]
  by (simp add: newOptimizeContext_def)

text \<open>
  Claim C7. At a word-break transition the desperate break points are enumerated exactly
  when the width since the last word break (without trailing line-end spaces) exceeds the
  minimum line width. The points enumerated are the offsets strictly inside the context
  range whose width is not zero, in increasing order, each with the sum of the widths from
  the start of the context range up to the offset. Where no hyphenation is asked for, the
  step appends their candidates and then the word break.
\<close>

theorem desperate_points_enumeration:
  "desperateBreaksAt measured minLineWidth proc =
     (if widthFromLastWordBreak proc > minLineWidth
      then map (\<lambda>i. \<lparr> dbOffset = i, sumOfChars = sumRange (widths measured) (prevWordBreak proc) i \<rparr>)
               (filter (\<lambda>i. widths measured ! i \<noteq> 0) [prevWordBreak proc + 1 ..< nextWordBreak proc])
      else []) \<and>
   candidates (wordBreakStep sv textBuf measured minLineWidth HF_None run hyphenPenalty n proc result) =
     candidates result @
     map (desperateCandidate proc (runIsRtl run)) (desperateBreaksAt measured minLineWidth proc) @
     (if n = getEnd (runRange run) \<or> widths measured ! n > 0
      then [wordBreakCandidate sv hyphenPenalty (runIsRtl run) n proc] else [])"
proof -
  have m: "\<And>ds. mergeOrder [] ds = map Inr ds"
    subgoal for ds by (induction ds) simp_all
    done
  show ?thesis
    by (simp add: desperateBreaksAt_exact interiorPoints_def contextRange_def getStart_def getEnd_def
        wordBreakStep_candidates stepCandidates_def hyphenedBreaksAt_def m mergedCandidate_def comp_def)
qed

theorem desperate_points_enumeration_witness:
  "widthFromLastWordBreak procAtEnd > 15 \<and>
   desperateBreaksAt measuredTrailing 15 procAtEnd =
     [\<lparr> dbOffset = 1, sumOfChars = 10 \<rparr>, \<lparr> dbOffset = 2, sumOfChars = 20 \<rparr>,
      \<lparr> dbOffset = 3, sumOfChars = 25 \<rparr>] \<and>
   desperateBreaksAt measuredTrailing 20 procAtEnd = []"
  using desperate_points_enumeration [of measuredTrailing 15 procAtEnd]
        desperate_points_enumeration [of measuredTrailing 20 procAtEnd]
  by (simp add: procAtEnd_def measuredTrailing_def widthFromLastWordBreak_def sumRange_def
      upt_rec [of 0 "numeral n" for n] upt_rec [of "Suc m" "numeral n" for m n])

subsection \<open>Hyphenation outside the run\<close>



subsection \<open>The TAB character\<close>

text \<open>
  Claim C9. The pass over the paragraph ends with the failed assertion exactly when one of
  the code units fed to the character processor (the code units at the offsets of the
  runs) is a TAB. When none is, the pass returns a context; in particular when the text
  holds no TAB and the runs lie inside the text.
\<close>

theorem tab_fails_fast:
  "(populateCandidates sv textBuf measured lineWidth frequency isJustified = Inl TabNotSupported)
     = (\<exists>i\<in>fedOffsets (runs measured). textBuf ! i = CHAR_TAB) \<and>
   ((\<forall>i\<in>fedOffsets (runs measured). textBuf ! i \<noteq> CHAR_TAB) \<longrightarrow>
      (\<exists>context. populateCandidates sv textBuf measured lineWidth frequency isJustified = Inr context)) \<and>
   (CHAR_TAB \<notin> set textBuf \<and> list_all (\<lambda>r. getEnd (runRange r) \<le> length textBuf) (runs measured) \<longrightarrow>
      (\<exists>context. populateCandidates sv textBuf measured lineWidth frequency isJustified = Inr context))"
proof -
  note l = tab_lemma [of sv textBuf measured lineWidth frequency isJustified]
  have "CHAR_TAB \<notin> set textBuf \<Longrightarrow> list_all (\<lambda>r. getEnd (runRange r) \<le> length textBuf) (runs measured) \<Longrightarrow>
        \<forall>i\<in>fedOffsets (runs measured). textBuf ! i \<noteq> CHAR_TAB"
  proof
    fix i
    assume a: "CHAR_TAB \<notin> set textBuf" "list_all (\<lambda>r. getEnd (runRange r) \<le> length textBuf) (runs measured)"
      "i \<in> fedOffsets (runs measured)"
    from a(2,3) have "i < length textBuf" by (auto simp: fedOffsets_def list_all_iff)
    with a(1) show "textBuf ! i \<noteq> CHAR_TAB" by (metis nth_mem)
  qed
  with l show ?thesis by blast
qed

theorem tab_fails_fast_witness:
  "populateCandidates (exampleServices (\<lambda>l. [0, 3])) textTab measuredTab lineWidth15 HF_None False
     = Inl TabNotSupported \<and>
   CHAR_TAB \<notin> set textTrailing \<and>
   (\<exists>context. populateCandidates (exampleServices (\<lambda>l. [0, 4])) textTrailing measuredTrailing
       lineWidth15 HF_None False = Inr context)"
proof -
  have a: "\<exists>i\<in>fedOffsets (runs measuredTab). textTab ! i = CHAR_TAB"
    by (rule bexI [of _ 1]) (simp_all add: fedOffsets_def measuredTab_def plainRun_def textTab_def
        CHAR_TAB_def getStart_def getEnd_def)
  have b: "CHAR_TAB \<notin> set textTrailing"
    "list_all (\<lambda>r. getEnd (runRange r) \<le> length textTrailing) (runs measuredTrailing)"
    by (simp_all add: textTrailing_def measuredTrailing_def plainRun_def CHAR_TAB_def getEnd_def)
  from a b
    tab_fails_fast [of "exampleServices (\<lambda>l. [0, 3])" textTab measuredTab lineWidth15 HF_None False]
    tab_fails_fast [of "exampleServices (\<lambda>l. [0, 4])" textTrailing measuredTrailing lineWidth15 HF_None False]
  show ?thesis by blast
qed

subsection \<open>The order of the candidates\<close>




subsection \<open>The width of a line between two candidates\<close>




end
